theory Spec2Isabelle
  imports Complex_Main "HOL-Library.Word"
begin

text \<open>
  A shallow embedding of the page script that draws the animated hexagonal line mesh:
  the Mesh Builder and the pointer and render loop.  The script exists in variants.  The
  simple variant is \<open>src/main.js\<close>: a monolithic \<open>createHexGrid\<close> and a \<open>render\<close> that
  eases the pointer and picks a scale.  The richer variant builds the grid by a pipeline
  of four functions and adds the pointer speed, the click shock and the context menu.
\<close>

section \<open>JavaScript numbers\<close>

text \<open>
  Every arithmetic value of the page script is a JavaScript Number.  A finite Number is
  modelled by the real it denotes (\<open>Num r\<close>); the three special values are kept apart,
  so that the \<open>Infinity\<close> sentinels of the bounds loop and a division by zero are
  branches of the model.  The operations below are exact: they round neither to doubles
  nor to the 32-bit floats stored in a \<open>Float32Array\<close>, and finite arithmetic does not
  overflow to \<open>Infinity\<close>.  The pointer easing, iterated frame after frame, is the one
  computation whose behaviour depends on rounding; it is modelled in binary64, with the
  rounding of the last subsection.  The sign of zero is not tracked, a zero divisor
  counts as \<open>+0\<close>.
\<close>

datatype jsnum = Num real | PosInf | NegInf | NaN

fun jneg :: "jsnum \<Rightarrow> jsnum" where
  "jneg (Num a) = Num (- a)"
| "jneg PosInf = NegInf"
| "jneg NegInf = PosInf"
| "jneg NaN = NaN"

fun jadd :: "jsnum \<Rightarrow> jsnum \<Rightarrow> jsnum" where
  "jadd (Num a) (Num b) = Num (a + b)"
| "jadd NaN _ = NaN"
| "jadd _ NaN = NaN"
| "jadd PosInf NegInf = NaN"
| "jadd NegInf PosInf = NaN"
| "jadd PosInf _ = PosInf"
| "jadd NegInf _ = NegInf"
| "jadd (Num a) b = b"

definition jsub :: "jsnum \<Rightarrow> jsnum \<Rightarrow> jsnum" where
  "jsub a b = jadd a (jneg b)"

text \<open>The infinity with the sign of \<open>s\<close> (\<open>s\<close> is not zero where this is used).\<close>

definition inf_of_sign :: "real \<Rightarrow> jsnum" where
  "inf_of_sign s = (if 0 < s then PosInf else NegInf)"

fun jmul :: "jsnum \<Rightarrow> jsnum \<Rightarrow> jsnum" where
  "jmul (Num a) (Num b) = Num (a * b)"
| "jmul NaN _ = NaN"
| "jmul _ NaN = NaN"
| "jmul (Num a) PosInf = (if a = 0 then NaN else inf_of_sign a)"
| "jmul (Num a) NegInf = (if a = 0 then NaN else inf_of_sign (- a))"
| "jmul PosInf (Num b) = (if b = 0 then NaN else inf_of_sign b)"
| "jmul NegInf (Num b) = (if b = 0 then NaN else inf_of_sign (- b))"
| "jmul PosInf PosInf = PosInf"
| "jmul NegInf NegInf = PosInf"
| "jmul PosInf NegInf = NegInf"
| "jmul NegInf PosInf = NegInf"

fun jdiv :: "jsnum \<Rightarrow> jsnum \<Rightarrow> jsnum" where
  "jdiv (Num a) (Num b) =
     (if b = 0 then (if a = 0 then NaN else inf_of_sign a) else Num (a / b))"
| "jdiv NaN _ = NaN"
| "jdiv _ NaN = NaN"
| "jdiv (Num a) _ = Num 0"
| "jdiv PosInf (Num b) = (if 0 \<le> b then PosInf else NegInf)"
| "jdiv NegInf (Num b) = (if 0 \<le> b then NegInf else PosInf)"
| "jdiv _ _ = NaN"

text \<open>The comparison \<open>a < b\<close>; it is false as soon as one side is \<open>NaN\<close>.\<close>

fun jlt :: "jsnum \<Rightarrow> jsnum \<Rightarrow> bool" where
  "jlt (Num a) (Num b) = (a < b)"
| "jlt NaN _ = False"
| "jlt _ NaN = False"
| "jlt _ NegInf = False"
| "jlt PosInf _ = False"
| "jlt _ _ = True"

definition jgt :: "jsnum \<Rightarrow> jsnum \<Rightarrow> bool" where
  "jgt a b = jlt b a"

definition jge :: "jsnum \<Rightarrow> jsnum \<Rightarrow> bool" where
  "jge a b = (a \<noteq> NaN \<and> b \<noteq> NaN \<and> \<not> jlt a b)"

definition jle :: "jsnum \<Rightarrow> jsnum \<Rightarrow> bool" where
  "jle a b = jge b a"

text \<open>Truthiness of a Number, and \<open>a || b\<close> on Numbers: zero and \<open>NaN\<close> are falsy.\<close>

fun truthy :: "jsnum \<Rightarrow> bool" where
  "truthy (Num a) = (a \<noteq> 0)"
| "truthy NaN = False"
| "truthy _ = True"

definition jor :: "jsnum \<Rightarrow> jsnum \<Rightarrow> jsnum" where
  "jor a b = (if truthy a then a else b)"

text \<open>\<open>Math.max\<close>, \<open>Math.min\<close> and \<open>Math.hypot\<close> of two arguments.\<close>

definition jmax :: "jsnum \<Rightarrow> jsnum \<Rightarrow> jsnum" where
  "jmax a b = (if a = NaN \<or> b = NaN then NaN else if jlt a b then b else a)"

definition jmin :: "jsnum \<Rightarrow> jsnum \<Rightarrow> jsnum" where
  "jmin a b = (if a = NaN \<or> b = NaN then NaN else if jlt b a then b else a)"

fun jhypot :: "jsnum \<Rightarrow> jsnum \<Rightarrow> jsnum" where
  "jhypot (Num a) (Num b) = Num (sqrt (a * a + b * b))"
| "jhypot PosInf _ = PosInf"
| "jhypot NegInf _ = PosInf"
| "jhypot _ PosInf = PosInf"
| "jhypot _ NegInf = PosInf"
| "jhypot _ _ = NaN"

subsection \<open>Rounding to binary64\<close>

text \<open>
  Round to nearest, ties to even.  \<open>rne\<close> rounds a real to an integer.  \<open>ulp64 x\<close> is
  the spacing of the doubles around \<open>x\<close>: \<open>2^(e - 52)\<close> for the binary exponent \<open>e\<close> of
  \<open>x\<close>, and \<open>2^(-1074)\<close> in the subnormal range below \<open>2^(-1022)\<close>.  \<open>fl64 x\<close> is the
  multiple of that spacing nearest to \<open>x\<close>, and \<open>round64\<close> adds the overflow to an
  infinity from \<open>2^1024\<close> on.  \<open>jround\<close> rounds the result of an operation.
\<close>

definition rne :: "real \<Rightarrow> int" where
  "rne y =
     (let f = \<lfloor>y\<rfloor> in
      if y - of_int f < 1 / 2 then f
      else if 1 / 2 < y - of_int f then f + 1
      else if even f then f else f + 1)"

definition ulp64 :: "real \<Rightarrow> real" where
  "ulp64 x = 2 powi (max \<lfloor>log 2 \<bar>x\<bar>\<rfloor> (- 1022) - 52)"

definition fl64 :: "real \<Rightarrow> real" where
  "fl64 x = (if x = 0 then 0 else of_int (rne (x / ulp64 x)) * ulp64 x)"

definition round64 :: "real \<Rightarrow> jsnum" where
  "round64 x = (let r = fl64 x in if 2 ^ 1024 \<le> \<bar>r\<bar> then inf_of_sign r else Num r)"

fun jround :: "jsnum \<Rightarrow> jsnum" where
  "jround (Num a) = round64 a"
| "jround v = v"

section \<open>Mesh Builder\<close>

text \<open>
  A lattice point \<open>{x, y}\<close> (its fields are \<open>p_x\<close> and \<open>p_y\<close> here), the bounds object
  of \<open>computeBounds\<close> and the grid \<open>{positions, indices}\<close>: a \<open>Float32Array\<close> of
  interleaved coordinates and a \<open>Uint16Array\<close> of line end points.
\<close>

record point =
  p_x :: jsnum
  p_y :: jsnum

record bounds =
  minX :: jsnum
  minY :: jsnum
  spanX :: jsnum
  spanY :: jsnum

record grid =
  positions :: "jsnum list"
  indices :: "16 word list"

text \<open>\<open>Math.sqrt(3) * 0.5\<close>, the height of a lattice row.\<close>

definition cellHeight :: jsnum where
  "cellHeight = jmul (Num (sqrt 3)) (Num 0.5)"

subsection \<open>The decomposed pipeline\<close>

text \<open>
  \<open>buildHexPoints\<close>: the two nested loops push one point per cell, row after row.
  The loop counters are natural numbers; \<open>cols\<close> and \<open>rows\<close> are the non-negative
  integers the callers pass.
\<close>

definition buildHexPoints :: "nat \<Rightarrow> nat \<Rightarrow> jsnum \<Rightarrow> point list" where
  "buildHexPoints cols rows cellH =
     fold (\<lambda>j points.
       let offset = jmul (Num (real (j mod 2))) (Num 0.5) in
       fold (\<lambda>i points.
               points @ [\<lparr>p_x = jadd (Num (real i)) offset,
                          p_y = jmul (Num (real j)) cellH\<rparr>])
            [0..<cols] points)
       [0..<rows] []"

text \<open>
  \<open>computeBounds\<close>: one pass over the points keeps the four extremes, starting from
  the infinities (\<open>bounds_step\<close> is the body of that loop); a span of zero is replaced
  by one (\<open>maxX - minX || 1\<close>).
\<close>

definition bounds_step :: "point \<Rightarrow> jsnum \<times> jsnum \<times> jsnum \<times> jsnum \<Rightarrow> jsnum \<times> jsnum \<times> jsnum \<times> jsnum" where
  "bounds_step p acc =
     (case acc of (mnX, mxX, mnY, mxY) \<Rightarrow>
        let mnX = (if jlt (p_x p) mnX then p_x p else mnX);
            mxX = (if jgt (p_x p) mxX then p_x p else mxX);
            mnY = (if jlt (p_y p) mnY then p_y p else mnY);
            mxY = (if jgt (p_y p) mxY then p_y p else mxY)
        in (mnX, mxX, mnY, mxY))"

definition computeBounds :: "point list \<Rightarrow> bounds" where
  "computeBounds points =
     (case fold bounds_step points (PosInf, NegInf, PosInf, NegInf) of
        (mnX, mxX, mnY, mxY) \<Rightarrow>
          \<lparr>minX = mnX, minY = mnY,
           spanX = jor (jsub mxX mnX) (Num 1),
           spanY = jor (jsub mxY mnY) (Num 1)\<rparr>)"

text \<open>
  \<open>normalizePositions\<close>: a zero-filled \<open>Float32Array\<close> of twice the number of points,
  written at \<open>2i\<close> and \<open>2i + 1\<close> for every point.
\<close>

definition normalizePositions :: "point list \<Rightarrow> bounds \<Rightarrow> jsnum \<Rightarrow> jsnum list" where
  "normalizePositions points b widenFactor =
     fold (\<lambda>i positions.
        let p = points ! i;
            nx = jsub (jmul (jdiv (jsub (p_x p) (minX b)) (spanX b)) (Num 2)) (Num 1);
            ny = jsub (jmul (jdiv (jsub (p_y p) (minY b)) (spanY b)) (Num 2)) (Num 1)
        in (positions[i * 2 := jmul nx widenFactor])[i * 2 + 1 := ny])
       [0..<length points] (replicate (length points * 2) (Num 0))"

text \<open>
  \<open>buildHexEdges\<close>: the neighbour offsets of even and of odd rows, the index of a
  cell, and the loop that pushes the two end points of every edge whose neighbour lies
  inside the lattice.  \<open>new Uint16Array(edges)\<close> stores every index modulo \<open>2^16\<close>.
\<close>

definition neighborOffsets :: "(int \<times> int) list list" where
  "neighborOffsets = [[(1, 0), (0, 1), (-1, 1)], [(1, 0), (0, 1), (1, 1)]]"

definition index :: "nat \<Rightarrow> int \<Rightarrow> int \<Rightarrow> int" where
  "index cols i j = j * int cols + i"

definition uint16Array :: "int list \<Rightarrow> 16 word list" where
  "uint16Array edges = map word_of_int edges"

definition buildHexEdges :: "nat \<Rightarrow> nat \<Rightarrow> 16 word list" where
  "buildHexEdges cols rows =
     uint16Array
      (fold (\<lambda>j edges.
         let neighbors = neighborOffsets ! (j mod 2) in
         fold (\<lambda>i edges.
            let a = index cols (int i) (int j) in
            fold (\<lambda>(dx, dy) edges.
                    let ni = int i + dx; nj = int j + dy in
                    if ni < 0 \<or> ni \<ge> int cols \<or> nj < 0 \<or> nj \<ge> int rows then edges
                    else edges @ [a, index cols ni nj])
                 neighbors edges)
            [0..<cols] edges)
         [0..<rows] [])"

definition createHexGrid :: "nat \<Rightarrow> nat \<Rightarrow> grid" where
  "createHexGrid cols rows =
     (let rawPoints = buildHexPoints cols rows cellHeight;
          bounds = computeBounds rawPoints;
          positions = normalizePositions rawPoints bounds (Num 1.25);
          indices = buildHexEdges cols rows
      in \<lparr>positions = positions, indices = indices\<rparr>)"

subsection \<open>The monolithic builder of the simple variant\<close>

text \<open>
  \<open>createHexGrid\<close> of the simple variant (\<open>src/main.js\<close>): the same four phases
  written in one function body.  \<open>odd\<close> is the number \<open>j % 2\<close>, used both as a
  factor and as a condition; \<open>cellH\<close> carries the extra factor \<open>cellW = 1.0\<close>.
\<close>

definition createHexGrid_simple :: "nat \<Rightarrow> nat \<Rightarrow> grid" where
  "createHexGrid_simple cols rows =
     (let cellW = Num 1;
          cellH = jmul (jmul (Num (sqrt 3)) (Num 0.5)) cellW;
          raw = fold (\<lambda>j raw.
                  let odd = j mod 2 in
                  fold (\<lambda>i raw.
                          let x = jadd (Num (real i)) (jmul (Num (real odd)) (Num 0.5));
                              y = jmul (Num (real j)) cellH
                          in raw @ [\<lparr>p_x = x, p_y = y\<rparr>])
                       [0..<cols] raw)
                  [0..<rows] [];
          (mnX, mxX, mnY, mxY) =
             fold (\<lambda>p (mnX, mxX, mnY, mxY).
                     let mnX = (if jlt (p_x p) mnX then p_x p else mnX);
                         mxX = (if jgt (p_x p) mxX then p_x p else mxX);
                         mnY = (if jlt (p_y p) mnY then p_y p else mnY);
                         mxY = (if jgt (p_y p) mxY then p_y p else mxY)
                     in (mnX, mxX, mnY, mxY))
                  raw (PosInf, NegInf, PosInf, NegInf);
          spX = jor (jsub mxX mnX) (Num 1);
          spY = jor (jsub mxY mnY) (Num 1);
          positions =
             fold (\<lambda>i positions.
                     let p = raw ! i;
                         nx = jsub (jmul (jdiv (jsub (p_x p) mnX) spX) (Num 2)) (Num 1);
                         ny = jsub (jmul (jdiv (jsub (p_y p) mnY) spY) (Num 2)) (Num 1);
                         nx = jmul nx (Num 1.25)
                     in (positions[i * 2 := nx])[i * 2 + 1 := ny])
                  [0..<length raw] (replicate (length raw * 2) (Num 0));
          edges =
             fold (\<lambda>j edges.
                     let odd = j mod 2 in
                     fold (\<lambda>i edges.
                             let a = index cols (int i) (int j);
                                 edges = (if int i + 1 < int cols
                                          then edges @ [a, index cols (int i + 1) (int j)]
                                          else edges)
                             in if int j + 1 < int rows then
                                  let edges = edges @ [a, index cols (int i) (int j + 1)];
                                      di = (if odd \<noteq> 0 then int i + 1 else int i - 1)
                                  in if di \<ge> 0 \<and> di < int cols
                                     then edges @ [a, index cols di (int j + 1)]
                                     else edges
                                else edges)
                          [0..<cols] edges)
                  [0..<rows] []
      in \<lparr>positions = positions, indices = uint16Array edges\<rparr>)"

section \<open>Interaction and render loop\<close>

text \<open>
  The module-level variables the pointer handlers and \<open>render\<close> write: the smoothed
  and the raw pointer position, the single shock record \<open>{origin, start}\<close> (\<open>start\<close> is
  \<open>-1\<close> while no shock is active), the pointer speed estimate, and whether the context
  menu is shown.  \<open>hasMenu\<close> says whether the page has the menu element at all; it is
  never written.
\<close>

record shock =
  origin :: point
  start :: jsnum

record speed =
  sp_target :: jsnum
  sp_value :: jsnum
  lastX :: jsnum
  lastY :: jsnum
  lastTime :: jsnum

record state =
  targetMouse :: point
  mouse :: point
  shockState :: shock
  pointerSpeed :: speed
  menuVisible :: bool
  hasMenu :: bool

text \<open>
  What a handler reads of a pointer event and of the page while it runs: the event's
  fields, whether its target lies inside the context menu, the window size, and the two
  successive readings of \<open>performance.now()\<close> (in \<open>recordPointerSpeed\<close>, then for the
  shock's start).
\<close>

record pointer_event =
  pointerType :: string
  button :: int
  clientX :: real
  clientY :: real
  inMenu :: bool
  innerWidth :: int
  innerHeight :: int
  nowSpeed :: real
  nowShock :: real

definition initial_state :: "bool \<Rightarrow> real \<Rightarrow> state" where
  "initial_state menu now =
     \<lparr>targetMouse = \<lparr>p_x = Num 0, p_y = Num 0\<rparr>,
      mouse = \<lparr>p_x = Num 0, p_y = Num 0\<rparr>,
      shockState = \<lparr>origin = \<lparr>p_x = Num 0, p_y = Num 0\<rparr>, start = Num (- 1)\<rparr>,
      pointerSpeed = \<lparr>sp_target = Num 0, sp_value = Num 0, lastX = Num 0, lastY = Num 0,
                      lastTime = Num now\<rparr>,
      menuVisible = False,
      hasMenu = menu\<rparr>"

definition closeContextMenu :: "state \<Rightarrow> state" where
  "closeContextMenu s =
     (if \<not> hasMenu s \<or> \<not> menuVisible s then s else s\<lparr>menuVisible := False\<rparr>)"

definition openContextMenu :: "state \<Rightarrow> state" where
  "openContextMenu s = (if \<not> hasMenu s then s else s\<lparr>menuVisible := True\<rparr>)"

definition clipSpaceFromEvent :: "pointer_event \<Rightarrow> point" where
  "clipSpaceFromEvent e =
     (let nx = jsub (jmul (jdiv (Num (clientX e)) (Num (real_of_int (innerWidth e)))) (Num 2)) (Num 1);
          ny = jsub (jmul (jdiv (Num (clientY e)) (Num (real_of_int (innerHeight e)))) (Num 2)) (Num 1)
      in \<lparr>p_x = nx, p_y = jneg ny\<rparr>)"

definition updatePointerTarget :: "state \<Rightarrow> pointer_event \<Rightarrow> state \<times> point" where
  "updatePointerTarget s e =
     (let coords = clipSpaceFromEvent e
      in (s\<lparr>targetMouse := \<lparr>p_x = p_x coords, p_y = p_y coords\<rparr>\<rparr>, coords))"

definition recordPointerSpeed :: "state \<Rightarrow> point \<Rightarrow> real \<Rightarrow> state" where
  "recordPointerSpeed s coords now =
     (let ps = pointerSpeed s;
          dx = jsub (p_x coords) (lastX ps);
          dy = jsub (p_y coords) (lastY ps);
          dt = jmax (Num 1) (jsub (Num now) (lastTime ps));
          dist = jhypot dx dy;
          normalized = jdiv dist (jdiv dt (Num 16))
      in s\<lparr>pointerSpeed :=
             ps\<lparr>sp_target := jmin (Num 2.5) normalized,
                lastX := p_x coords, lastY := p_y coords, lastTime := Num now\<rparr>\<rparr>)"

definition pointermove :: "state \<Rightarrow> pointer_event \<Rightarrow> state" where
  "pointermove s e =
     (case updatePointerTarget s e of (s, coords) \<Rightarrow> recordPointerSpeed s coords (nowSpeed e))"

text \<open>
  The \<open>pointerdown\<close> handler.  A right mouse button opens the menu, a press inside the
  menu is left to the menu, any other mouse button but the left one is ignored; what
  remains moves the pointer target and overwrites the shock record.
\<close>

definition pointerdown :: "state \<Rightarrow> pointer_event \<Rightarrow> state" where
  "pointerdown s e =
     (if pointerType e = ''mouse'' \<and> button e = 2 then openContextMenu s
      else if inMenu e then s
      else
        let s = (if menuVisible s then closeContextMenu s else s) in
        if pointerType e = ''mouse'' \<and> button e \<noteq> 0 then s
        else
          case updatePointerTarget s e of (s, coords) \<Rightarrow>
            let s = recordPointerSpeed s coords (nowSpeed e)
            in s\<lparr>shockState :=
                   \<lparr>origin = \<lparr>p_x = p_x coords, p_y = p_y coords\<rparr>, start = Num (nowShock e)\<rparr>\<rparr>)"

text \<open>
  The two fragments the \<open>render\<close> functions of both variants share word for word: the
  easing of the pointer position towards its target, and the scale chosen from the
  window width.  The easing \<open>mouse.x += (targetMouse.x - mouse.x) * 0.07\<close> is computed in
  binary64: the subtraction, the product and the sum each round their result, and the
  literal is the double nearest to 0.07.
\<close>

definition smoothMouse :: "point \<Rightarrow> point \<Rightarrow> point" where
  "smoothMouse m tgt =
     \<lparr>p_x = jround (jadd (p_x m)
              (jround (jmul (jround (jsub (p_x tgt) (p_x m))) (round64 0.07)))),
      p_y = jround (jadd (p_y m)
              (jround (jmul (jround (jsub (p_y tgt) (p_y m))) (round64 0.07))))\<rparr>"

definition meshScale :: "int \<Rightarrow> jsnum" where
  "meshScale w =
     (if w < 480 then Num 1.8
      else if w < 768 then Num 1.4
      else if w < 1024 then Num 1.2
      else Num 1)"

text \<open>The uniforms \<open>render\<close> hands to the shaders (the aspect pair of \<open>resize\<close> apart).\<close>

record uniforms =
  uTime :: jsnum
  uMouse :: point
  uScale :: jsnum
  uShockOrigin :: point
  uShockTime :: jsnum
  uShockPower :: jsnum
  uMouseSpeed :: jsnum
  uShockHeat :: jsnum

text \<open>
  \<open>render(ms)\<close> of the richer variant, for a frame time stamp \<open>ms\<close> and the window
  width \<open>w\<close> read in the frame.  \<open>resize()\<close>, the clear and the draw call touch none of
  the variables above and are left out.
\<close>

definition render :: "state \<Rightarrow> real \<Rightarrow> int \<Rightarrow> state \<times> uniforms" where
  "render s ms w =
     (let t = jmul (Num ms) (Num 0.001);
          s = s\<lparr>mouse := smoothMouse (mouse s) (targetMouse s)\<rparr>;
          scale = meshScale w;
          ps = pointerSpeed s;
          ps = ps\<lparr>sp_value := jadd (sp_value ps) (jmul (jsub (sp_target ps) (sp_value ps)) (Num 0.08))\<rparr>;
          ps = ps\<lparr>sp_target := jmul (sp_target ps) (Num 0.9)\<rparr>;
          ps = (if jlt (sp_target ps) (Num 0.0001) then ps\<lparr>sp_target := Num 0\<rparr> else ps);
          s = s\<lparr>pointerSpeed := ps\<rparr>;
          (s, shockAge) =
             (if jge (start (shockState s)) (Num 0) then
                let shockAge = jmul (jsub (Num ms) (start (shockState s))) (Num 0.001)
                in if jgt shockAge (Num 4.5)
                   then (s\<lparr>shockState := (shockState s)\<lparr>start := Num (- 1)\<rparr>\<rparr>, Num (- 1))
                   else (s, shockAge)
              else (s, Num (- 1)));
          shockStrength = (if jge shockAge (Num 0)
                           then jmax (Num 0) (jsub (Num 1) (jdiv shockAge (Num 3.2)))
                           else Num 0);
          shockHeat = (if jge shockAge (Num 0)
                       then jmax (Num 0) (jsub (Num 1) (jdiv shockAge (Num 2.2)))
                       else Num 0)
      in (s, \<lparr>uTime = t, uMouse = mouse s, uScale = scale,
               uShockOrigin = origin (shockState s), uShockTime = shockAge,
               uShockPower = shockStrength, uMouseSpeed = sp_value (pointerSpeed s),
               uShockHeat = shockHeat\<rparr>))"

text \<open>
  \<open>render(ms)\<close> of the simple variant: the pointer easing and the scale only.  That
  variant has no shock and no speed estimate; the fields for them stay as they are.
\<close>

record uniforms_simple =
  uTime_s :: jsnum
  uMouse_s :: point
  uScale_s :: jsnum

definition render_simple :: "state \<Rightarrow> real \<Rightarrow> int \<Rightarrow> state \<times> uniforms_simple" where
  "render_simple s ms w =
     (let t = jmul (Num ms) (Num 0.001);
          s = s\<lparr>mouse := smoothMouse (mouse s) (targetMouse s)\<rparr>;
          scale = meshScale w
      in (s, \<lparr>uTime_s = t, uMouse_s = mouse s, uScale_s = scale\<rparr>))"

text \<open>What happens to the page, one event or frame at a time.\<close>

datatype event = PointerDown pointer_event | PointerMove pointer_event | Frame real int

fun step :: "state \<Rightarrow> event \<Rightarrow> state" where
  "step s (PointerDown e) = pointerdown s e"
| "step s (PointerMove e) = pointermove s e"
| "step s (Frame ms w) = fst (render s ms w)"

definition run :: "state \<Rightarrow> event list \<Rightarrow> state" where
  "run s es = fold (\<lambda>e s. step s e) es s"

section \<open>Notions used in the statements\<close>

text \<open>
  The position buffer read as the shaders' attribute pointer reads it, two floats per
  vertex: the first and the second coordinate of every point.
\<close>

fun xcoords :: "'a list \<Rightarrow> 'a list" where
  "xcoords (a # b # r) = a # xcoords r"
| "xcoords _ = []"

fun ycoords :: "'a list \<Rightarrow> 'a list" where
  "ycoords (a # b # r) = b # ycoords r"
| "ycoords _ = []"

text \<open>The least and the greatest value of a list of Numbers.\<close>

definition is_min :: "jsnum \<Rightarrow> jsnum list \<Rightarrow> bool" where
  "is_min m vs \<longleftrightarrow> m \<in> set vs \<and> (\<forall>v \<in> set vs. jle m v)"

definition is_max :: "jsnum \<Rightarrow> jsnum list \<Rightarrow> bool" where
  "is_max m vs \<longleftrightarrow> m \<in> set vs \<and> (\<forall>v \<in> set vs. jle v m)"

text \<open>
  A grid fills the widened clip-space box: the second coordinates reach from \<open>-1\<close> to
  \<open>1\<close>, the first ones from \<open>-1.25\<close> to \<open>1.25\<close>, and all four bounds are attained.
\<close>

definition normalized_box :: "grid \<Rightarrow> bool" where
  "normalized_box g \<longleftrightarrow>
     is_min (Num (- 1)) (ycoords (positions g)) \<and> is_max (Num 1) (ycoords (positions g)) \<and>
     is_min (Num (- 1.25)) (xcoords (positions g)) \<and> is_max (Num 1.25) (xcoords (positions g))"

text \<open>
  The index buffer read as line segments, a segment without its direction, and the
  segments that join a cell to a cell of the next row in another column.
\<close>

fun pairs :: "'a list \<Rightarrow> ('a \<times> 'a) list" where
  "pairs (a # b # r) = (a, b) # pairs r"
| "pairs _ = []"

definition undirected :: "'a::linorder \<times> 'a \<Rightarrow> 'a \<times> 'a" where
  "undirected e = (min (fst e) (snd e), max (fst e) (snd e))"

definition is_diagonal :: "nat \<Rightarrow> int \<times> int \<Rightarrow> bool" where
  "is_diagonal cols e \<longleftrightarrow>
     snd e div int cols = fst e div int cols + 1 \<and> snd e mod int cols \<noteq> fst e mod int cols"

text \<open>
  The diagonal rule as the specification words it: a point of an even row is joined to
  column \<open>i - 1\<close> of the next row, a point of an odd row to column \<open>i + 1\<close>, unless that
  neighbour falls outside the lattice.
\<close>

definition parity_diagonals :: "nat \<Rightarrow> nat \<Rightarrow> (int \<times> int) list" where
  "parity_diagonals cols rows =
     concat (map (\<lambda>j. concat (map (\<lambda>i.
        let di = (if even j then int i - 1 else int i + 1) in
        if j + 1 < rows \<and> 0 \<le> di \<and> di < int cols
        then [(int j * int cols + int i, (int j + 1) * int cols + di)] else [])
       [0..<cols])) [0..<rows])"

text \<open>
  The Euclidean distance of two points, and a run of frames with no pointer event in
  between (each frame with its time stamp and the window width it reads).
\<close>

definition distance :: "point \<Rightarrow> point \<Rightarrow> jsnum" where
  "distance a b = jhypot (jsub (p_x a) (p_x b)) (jsub (p_y a) (p_y b))"

definition frames :: "state \<Rightarrow> (real \<times> int) list \<Rightarrow> state" where
  "frames s fs = run s (map (\<lambda>(ms, w). Frame ms w) fs)"

text \<open>
  A primary press is one of the left mouse button, or of a pen or a finger.
  \<open>last_press\<close> finds the latest primary press outside the menu in a history, and a
  shock record tracks a press when it carries its origin and either its start time or
  the sentinel \<open>-1\<close>.
\<close>

definition primary :: "pointer_event \<Rightarrow> bool" where
  "primary e \<longleftrightarrow> pointerType e \<noteq> ''mouse'' \<or> button e = 0"

fun last_press :: "event list \<Rightarrow> pointer_event option" where
  "last_press [] = None"
| "last_press (PointerDown e # es) =
     (case last_press es of Some e' \<Rightarrow> Some e'
      | None \<Rightarrow> if primary e \<and> \<not> inMenu e then Some e else None)"
| "last_press (_ # es) = last_press es"

definition tracks :: "shock \<Rightarrow> point \<Rightarrow> jsnum \<Rightarrow> bool" where
  "tracks sh org t \<longleftrightarrow> origin sh = org \<and> (start sh = t \<or> start sh = Num (- 1))"

text \<open>
  A press of the left mouse button at the client position \<open>(cx, cy)\<close> of a 1000 by 800
  window, outside the context menu, handled at time \<open>t\<close>.
\<close>

definition press_at :: "real \<Rightarrow> real \<Rightarrow> real \<Rightarrow> pointer_event" where
  "press_at cx cy t =
     \<lparr>pointerType = ''mouse'', button = 0, clientX = cx, clientY = cy, inMenu = False,
      innerWidth = 1000, innerHeight = 800, nowSpeed = t, nowShock = t\<rparr>"

section \<open>Closed forms of the loops\<close>

text \<open>
  What the loops of the Mesh Builder compute, written without accumulators: the point of
  a cell, the two normalised coordinates of a point, the indices one cell pushes, and the
  edge list of the whole lattice.  \<open>simple_edges\<close> is the edge loop of the simple
  variant, taken out of its function body.
\<close>

definition raw_point :: "jsnum \<Rightarrow> nat \<Rightarrow> nat \<Rightarrow> point" where
  "raw_point cellH i j =
     \<lparr>p_x = jadd (Num (real i)) (jmul (Num (real (j mod 2))) (Num 0.5)),
      p_y = jmul (Num (real j)) cellH\<rparr>"

definition norm_x :: "bounds \<Rightarrow> jsnum \<Rightarrow> point \<Rightarrow> jsnum" where
  "norm_x b w p = jmul (jsub (jmul (jdiv (jsub (p_x p) (minX b)) (spanX b)) (Num 2)) (Num 1)) w"

definition norm_y :: "bounds \<Rightarrow> point \<Rightarrow> jsnum" where
  "norm_y b p = jsub (jmul (jdiv (jsub (p_y p) (minY b)) (spanY b)) (Num 2)) (Num 1)"

definition cell_edges :: "nat \<Rightarrow> nat \<Rightarrow> nat \<Rightarrow> nat \<Rightarrow> int list" where
  "cell_edges cols rows i j =
     (let a = index cols (int i) (int j);
          di = (if j mod 2 \<noteq> 0 then int i + 1 else int i - 1)
      in (if i + 1 < cols then [a, index cols (int i + 1) (int j)] else []) @
         (if j + 1 < rows then [a, index cols (int i) (int j + 1)] else []) @
         (if j + 1 < rows \<and> 0 \<le> di \<and> di < int cols then [a, index cols di (int j + 1)] else []))"

definition grid_edges :: "nat \<Rightarrow> nat \<Rightarrow> int list" where
  "grid_edges cols rows =
     concat (map (\<lambda>j. concat (map (\<lambda>i. cell_edges cols rows i j) [0..<cols])) [0..<rows])"

definition simple_edges :: "nat \<Rightarrow> nat \<Rightarrow> int list" where
  "simple_edges cols rows =
             fold (\<lambda>j edges.
                     let odd = j mod 2 in
                     fold (\<lambda>i edges.
                             let a = index cols (int i) (int j);
                                 edges = (if int i + 1 < int cols
                                          then edges @ [a, index cols (int i + 1) (int j)]
                                          else edges)
                             in if int j + 1 < int rows then
                                  let edges = edges @ [a, index cols (int i) (int j + 1)];
                                      di = (if odd \<noteq> 0 then int i + 1 else int i - 1)
                                  in if di \<ge> 0 \<and> di < int cols
                                     then edges @ [a, index cols di (int j + 1)]
                                     else edges
                                else edges)
                          [0..<cols] edges)
                  [0..<rows] []"

text \<open>A point with finite coordinates, and the lattice of a grid as pairs of reals.\<close>

definition fin_point :: "real \<times> real \<Rightarrow> point" where
  "fin_point ab = \<lparr>p_x = Num (fst ab), p_y = Num (snd ab)\<rparr>"

definition lattice :: "nat \<Rightarrow> nat \<Rightarrow> real \<Rightarrow> (real \<times> real) list" where
  "lattice cols rows h =
     concat (map (\<lambda>j. map (\<lambda>i. (real i + real (j mod 2) * 0.5, real j * h)) [0..<cols]) [0..<rows])"

text \<open>
  One coordinate of the pointer easing on finite doubles that do not overflow, and its
  iteration over \<open>n\<close> frames with the target \<open>t\<close> held.
\<close>

definition ease1 :: "real \<Rightarrow> real \<Rightarrow> real" where
  "ease1 m t = fl64 (m + fl64 (fl64 (t - m) * fl64 0.07))"

fun ease_n :: "nat \<Rightarrow> real \<Rightarrow> real \<Rightarrow> real" where
  "ease_n 0 m t = m"
| "ease_n (Suc n) m t = ease_n n (ease1 m t) t"

section \<open>The loops of the Mesh Builder\<close>

text \<open>A loop that pushes onto an array appends what each round pushes.\<close>

lemma fold_push: "fold (\<lambda>i acc. acc @ f i) xs acc = acc @ concat (map f xs)"
  by (induction xs arbitrary: acc) simp_all

lemma buildHexPoints_rows:
  "buildHexPoints cols rows cellH =
     concat (map (\<lambda>j. map (\<lambda>i. raw_point cellH i j) [0..<cols]) [0..<rows])"
proof -
  have inner: "\<And>j acc. fold (\<lambda>i points. points @ [raw_point cellH i j]) [0..<cols] acc
      = acc @ map (\<lambda>i. raw_point cellH i j) [0..<cols]"
    by (simp add: fold_push [where f = "\<lambda>i. [raw_point cellH i j]" for j] )
  show ?thesis
    unfolding buildHexPoints_def Let_def raw_point_def [symmetric] inner
    by (simp add: fold_push)
qed

lemma length_buildHexPoints: "length (buildHexPoints cols rows cellH) = cols * rows"
  by (simp add: buildHexPoints_rows length_concat comp_def sum_list_triv)

text \<open>
  Writing the two coordinates of every point into the zero-filled array leaves the
  coordinates interleaved, in the order of the points.
\<close>

lemma fold_write_pairs_take:
  "k \<le> length xs \<Longrightarrow>
   fold (\<lambda>i ps. (ps[i * 2 := f (xs ! i)])[i * 2 + 1 := g (xs ! i)]) [0..<k]
        (replicate (length xs * 2) z)
   = concat (map (\<lambda>p. [f p, g p]) (take k xs)) @ replicate ((length xs - k) * 2) z"
proof (induction k)
  case 0
  then show ?case by simp
next
  case (Suc k)
  then have k: "k < length xs" by simp
  let ?A = "concat (map (\<lambda>p. [f p, g p]) (take k xs))"
  have lenA: "length ?A = k * 2"
    using k by (simp add: length_concat comp_def sum_list_triv)
  have rep: "replicate ((length xs - k) * 2) z = z # z # replicate ((length xs - Suc k) * 2) z"
  proof -
    have "(length xs - k) * 2 = Suc (Suc ((length xs - Suc k) * 2))" using k by simp
    then show ?thesis by (simp only: replicate_Suc)
  qed
  have "fold (\<lambda>i ps. (ps[i * 2 := f (xs ! i)])[i * 2 + 1 := g (xs ! i)]) [0..<Suc k]
          (replicate (length xs * 2) z)
        = ((?A @ replicate ((length xs - k) * 2) z)[k * 2 := f (xs ! k)])[k * 2 + 1 := g (xs ! k)]"
    using Suc.IH k by simp
  also have "\<dots> = ?A @ [f (xs ! k), g (xs ! k)] @ replicate ((length xs - Suc k) * 2) z"
    by (simp add: list_update_append lenA rep)
  also have "\<dots> = concat (map (\<lambda>p. [f p, g p]) (take (Suc k) xs)) @ replicate ((length xs - Suc k) * 2) z"
    using k by (simp add: take_Suc_conv_app_nth)
  finally show ?case .
qed

lemma fold_write_pairs:
  "fold (\<lambda>i ps. (ps[i * 2 := f (xs ! i)])[i * 2 + 1 := g (xs ! i)]) [0..<length xs]
        (replicate (length xs * 2) z)
   = concat (map (\<lambda>p. [f p, g p]) xs)"
  using fold_write_pairs_take [of "length xs" xs f g z] by simp

lemma normalizePositions_pairs:
  "normalizePositions points b w = concat (map (\<lambda>p. [norm_x b w p, norm_y b p]) points)"
  unfolding normalizePositions_def Let_def norm_x_def [symmetric] norm_y_def [symmetric]
  by (rule fold_write_pairs)

lemma length_normalizePositions: "length (normalizePositions points b w) = 2 * length points"
  by (simp add: normalizePositions_pairs length_concat comp_def sum_list_triv)

text \<open>The edge loop of the pipeline, cell by cell.\<close>

lemma neighbor_fold:
  assumes "i < cols" "j < rows"
  shows "fold (\<lambda>(dx, dy) edges.
                 if int i + dx < 0 \<or> int i + dx \<ge> int cols \<or> int j + dy < 0 \<or> int j + dy \<ge> int rows
                 then edges
                 else edges @ [index cols (int i) (int j), index cols (int i + dx) (int j + dy)])
              (neighborOffsets ! (j mod 2)) acc
         = acc @ cell_edges cols rows i j"
proof (cases "j mod 2 = 0")
  case True
  then show ?thesis using assms
    by (simp add: neighborOffsets_def cell_edges_def Let_def)
next
  case False
  then have "j mod 2 = 1" by presburger
  then show ?thesis using assms
    by (simp add: neighborOffsets_def cell_edges_def Let_def)
qed

lemma buildHexEdges_cells: "buildHexEdges cols rows = uint16Array (grid_edges cols rows)"
proof -
  have row: "fold (\<lambda>i. fold (\<lambda>(dx, dy) edges.
                 if int i + dx < 0 \<or> int i + dx \<ge> int cols \<or> int j + dy < 0 \<or> int j + dy \<ge> int rows
                 then edges
                 else edges @ [index cols (int i) (int j), index cols (int i + dx) (int j + dy)])
              (neighborOffsets ! (j mod 2)))
            [0..<cols] acc
        = acc @ concat (map (\<lambda>i. cell_edges cols rows i j) [0..<cols])"
    if "j < rows" for j acc
  proof -
    have "fold (\<lambda>i. fold (\<lambda>(dx, dy) edges.
                 if int i + dx < 0 \<or> int i + dx \<ge> int cols \<or> int j + dy < 0 \<or> int j + dy \<ge> int rows
                 then edges
                 else edges @ [index cols (int i) (int j), index cols (int i + dx) (int j + dy)])
              (neighborOffsets ! (j mod 2)))
            [0..<cols] acc
         = fold (\<lambda>i edges. edges @ cell_edges cols rows i j) [0..<cols] acc"
    proof (rule fold_cong)
      fix i assume "i \<in> set [0..<cols]"
      then have "i < cols" by simp
      then show "fold (\<lambda>(dx, dy) edges.
                 if int i + dx < 0 \<or> int i + dx \<ge> int cols \<or> int j + dy < 0 \<or> int j + dy \<ge> int rows
                 then edges
                 else edges @ [index cols (int i) (int j), index cols (int i + dx) (int j + dy)])
              (neighborOffsets ! (j mod 2)) = (\<lambda>edges. edges @ cell_edges cols rows i j)"
        using neighbor_fold [OF _ that] by (intro ext) blast
    qed simp_all
    then show ?thesis by (simp only: fold_push)
  qed
  have "fold (\<lambda>j. fold (\<lambda>i. fold (\<lambda>(dx, dy) edges.
                 if int i + dx < 0 \<or> int i + dx \<ge> int cols \<or> int j + dy < 0 \<or> int j + dy \<ge> int rows
                 then edges
                 else edges @ [index cols (int i) (int j), index cols (int i + dx) (int j + dy)])
              (neighborOffsets ! (j mod 2)))
            [0..<cols])
         [0..<rows] []
       = fold (\<lambda>j edges. edges @ concat (map (\<lambda>i. cell_edges cols rows i j) [0..<cols])) [0..<rows] []"
  proof (rule fold_cong)
    fix j assume "j \<in> set [0..<rows]"
    then have "j < rows" by simp
    then show "fold (\<lambda>i. fold (\<lambda>(dx, dy) edges.
                 if int i + dx < 0 \<or> int i + dx \<ge> int cols \<or> int j + dy < 0 \<or> int j + dy \<ge> int rows
                 then edges
                 else edges @ [index cols (int i) (int j), index cols (int i + dx) (int j + dy)])
              (neighborOffsets ! (j mod 2)))
            [0..<cols] = (\<lambda>edges. edges @ concat (map (\<lambda>i. cell_edges cols rows i j) [0..<cols]))"
      using row by (intro ext) blast
  qed simp_all
  then show ?thesis
    unfolding buildHexEdges_def grid_edges_def Let_def by (simp only: fold_push append_Nil)
qed

text \<open>Every pushed index is the index of a cell of the lattice, also once stored in 16 bits.\<close>

lemma index_range:
  assumes "0 \<le> i" "i < int cols" "0 \<le> j" "j < int rows"
  shows "0 \<le> index cols i j \<and> index cols i j < int (cols * rows)"
proof -
  have "j * int cols + i < j * int cols + int cols" using assms by simp
  also have "\<dots> = (j + 1) * int cols" by (simp add: algebra_simps)
  also have "\<dots> \<le> int rows * int cols"
    using assms by (intro mult_right_mono) simp_all
  finally have "index cols i j < int (cols * rows)"
    by (simp add: index_def mult.commute)
  moreover have "0 \<le> index cols i j" using assms by (simp add: index_def)
  ultimately show ?thesis by simp
qed

lemma cell_edges_range:
  assumes "i < cols" "j < rows" "v \<in> set (cell_edges cols rows i j)"
  shows "0 \<le> v \<and> v < int (cols * rows)"
proof -
  have a: "0 \<le> index cols (int i) (int j) \<and> index cols (int i) (int j) < int (cols * rows)"
    using assms by (intro index_range) simp_all
  have r: "i + 1 < cols \<Longrightarrow> 0 \<le> index cols (int i + 1) (int j) \<and> index cols (int i + 1) (int j) < int (cols * rows)"
    using assms by (intro index_range) simp_all
  have d: "j + 1 < rows \<Longrightarrow> 0 \<le> index cols (int i) (int j + 1) \<and> index cols (int i) (int j + 1) < int (cols * rows)"
    using assms by (intro index_range) simp_all
  have g: "j + 1 < rows \<Longrightarrow> 0 \<le> di \<Longrightarrow> di < int cols \<Longrightarrow> 0 \<le> index cols di (int j + 1) \<and> index cols di (int j + 1) < int (cols * rows)" for di
    by (intro index_range) simp_all
  let ?di = "if j mod 2 \<noteq> 0 then int i + 1 else int i - 1"
  from assms(3) consider
      "v = index cols (int i) (int j)"
    | "i + 1 < cols" "v = index cols (int i + 1) (int j)"
    | "j + 1 < rows" "v = index cols (int i) (int j + 1)"
    | "j + 1 < rows" "0 \<le> ?di" "?di < int cols" "v = index cols ?di (int j + 1)"
    unfolding cell_edges_def Let_def set_append
    by (fastforce split: if_split_asm)
  then show ?thesis
    using a r d g [of ?di] by cases simp_all
qed

lemma grid_edges_range:
  assumes "v \<in> set (grid_edges cols rows)"
  shows "0 \<le> v \<and> v < int (cols * rows)"
  using assms cell_edges_range unfolding grid_edges_def by auto

lemma unat_uint16_le:
  assumes "0 \<le> v"
  shows "unat (word_of_int v :: 16 word) \<le> nat v"
proof -
  have "uint (word_of_int v :: 16 word) = v mod 2 ^ 16"
    by (simp add: uint_word_of_int)
  also have "\<dots> \<le> v" using assms by (rule zmod_le_nonneg_dividend)
  finally have "nat (uint (word_of_int v :: 16 word)) \<le> nat v" by (rule nat_mono)
  then show ?thesis by (simp only: unat_eq_nat_uint)
qed

lemma uint16Array_range:
  assumes "\<And>v. v \<in> set es \<Longrightarrow> 0 \<le> v \<and> v < int n" "w \<in> set (uint16Array es)"
  shows "unat w < n"
proof -
  from assms(2) obtain v where v: "v \<in> set es" "w = word_of_int v"
    by (auto simp: uint16Array_def)
  with assms(1) have "0 \<le> v" "v < int n" by auto
  then have "nat v < n" by simp
  with unat_uint16_le [of v] \<open>0 \<le> v\<close> v show ?thesis by simp
qed

lemma indices_range:
  assumes "w \<in> set (buildHexEdges cols rows)"
  shows "unat w < cols * rows"
  using assms unfolding buildHexEdges_cells
  by (rule uint16Array_range [rotated]) (rule grid_edges_range)

text \<open>The simple variant pushes the same indices and computes the same positions.\<close>

lemma simple_cell:
  "(let a = index cols (int i) (int j);
        edges = (if int i + 1 < int cols
                 then edges @ [a, index cols (int i + 1) (int j)]
                 else edges)
    in if int j + 1 < int rows then
         let edges = edges @ [a, index cols (int i) (int j + 1)];
             di = (if j mod 2 \<noteq> 0 then int i + 1 else int i - 1)
         in if di \<ge> 0 \<and> di < int cols
            then edges @ [a, index cols di (int j + 1)]
            else edges
       else edges)
   = edges @ cell_edges cols rows i j"
  by (simp add: cell_edges_def Let_def)

lemma simple_edges_cells: "simple_edges cols rows = grid_edges cols rows"
  unfolding simple_edges_def grid_edges_def Let_def [of "_ mod 2"]
  by (simp only: simple_cell fold_push append_Nil)

lemma cellH_simple: "jmul (jmul (Num (sqrt 3)) (Num 0.5)) (Num 1) = cellHeight"
  by (simp add: cellHeight_def)

lemma simple_eq_pipeline: "createHexGrid_simple cols rows = createHexGrid cols rows"
proof -
  obtain mnX mxX mnY mxY where
    b: "fold bounds_step (buildHexPoints cols rows cellHeight) (PosInf, NegInf, PosInf, NegInf)
        = (mnX, mxX, mnY, mxY)"
    by (cases "fold bounds_step (buildHexPoints cols rows cellHeight) (PosInf, NegInf, PosInf, NegInf)")
  have step: "(\<lambda>p (mnX, mxX, mnY, mxY).
                     let mnX = (if jlt (p_x p) mnX then p_x p else mnX);
                         mxX = (if jgt (p_x p) mxX then p_x p else mxX);
                         mnY = (if jlt (p_y p) mnY then p_y p else mnY);
                         mxY = (if jgt (p_y p) mxY then p_y p else mxY)
                     in (mnX, mxX, mnY, mxY)) = bounds_step"
    by (intro ext) (simp add: bounds_step_def)
  have raw: "fold (\<lambda>j raw.
                  let odd = j mod 2 in
                  fold (\<lambda>i raw.
                          let x = jadd (Num (real i)) (jmul (Num (real odd)) (Num 0.5));
                              y = jmul (Num (real j)) cellHeight
                          in raw @ [\<lparr>p_x = x, p_y = y\<rparr>])
                       [0..<cols] raw)
                  [0..<rows] [] = buildHexPoints cols rows cellHeight"
    by (simp add: buildHexPoints_def Let_def)
  show ?thesis
    unfolding createHexGrid_simple_def Let_def [of "Num 1"] cellH_simple
    unfolding Let_def [of cellHeight] raw step Let_def [of "buildHexPoints _ _ _"] b
    unfolding simple_edges_def [symmetric] simple_edges_cells
    by (simp add: createHexGrid_def computeBounds_def b normalizePositions_def Let_def
          buildHexEdges_cells)
qed

section \<open>Bounds and normalisation\<close>

lemma xcoords_pairs: "xcoords (concat (map (\<lambda>p. [f p, g p]) ps)) = map f ps"
  by (induction ps) simp_all

lemma ycoords_pairs: "ycoords (concat (map (\<lambda>p. [f p, g p]) ps)) = map g ps"
  by (induction ps) simp_all

lemma jle_Num [simp]: "jle (Num a) (Num b) \<longleftrightarrow> a \<le> b"
  by (auto simp: jle_def jge_def)

lemma fold_bounds_fin:
  "fold bounds_step (map fin_point rs) (Num a, Num b, Num c, Num d)
   = (Num (fold min (map fst rs) a), Num (fold max (map fst rs) b),
      Num (fold min (map snd rs) c), Num (fold max (map snd rs) d))"
proof (induction rs arbitrary: a b c d)
  case Nil
  then show ?case by simp
next
  case (Cons r rs)
  have "bounds_step (fin_point r) (Num a, Num b, Num c, Num d)
        = (Num (min (fst r) a), Num (max (fst r) b), Num (min (snd r) c), Num (max (snd r) d))"
    by (simp add: bounds_step_def fin_point_def jgt_def min_def max_def)
  then show ?case using Cons.IH by simp
qed

lemma fold_bounds_start:
  assumes "rs \<noteq> []"
  shows "fold bounds_step (map fin_point rs) (PosInf, NegInf, PosInf, NegInf)
   = (Num (Min (fst ` set rs)), Num (Max (fst ` set rs)),
      Num (Min (snd ` set rs)), Num (Max (snd ` set rs)))"
proof -
  from assms obtain r rs' where rs: "rs = r # rs'" by (cases rs) auto
  have first: "bounds_step (fin_point r) (PosInf, NegInf, PosInf, NegInf)
        = (Num (fst r), Num (fst r), Num (snd r), Num (snd r))"
    by (simp add: bounds_step_def fin_point_def jgt_def)
  have mn: "fold min (map f rs') (f r) = Min (f ` set (r # rs'))" for f :: "real \<times> real \<Rightarrow> real"
    using Min.set_eq_fold [of "f r" "map f rs'"] by simp
  have mx: "fold max (map f rs') (f r) = Max (f ` set (r # rs'))" for f :: "real \<times> real \<Rightarrow> real"
    using Max.set_eq_fold [of "f r" "map f rs'"] by simp
  show ?thesis
    unfolding rs using first by (simp only: list.map fold_simps comp_def fold_bounds_fin mn mx)
qed

lemma computeBounds_fin:
  assumes "rs \<noteq> []"
  shows "computeBounds (map fin_point rs)
    = \<lparr>minX = Num (Min (fst ` set rs)), minY = Num (Min (snd ` set rs)),
       spanX = jor (Num (Max (fst ` set rs) - Min (fst ` set rs))) (Num 1),
       spanY = jor (Num (Max (snd ` set rs) - Min (snd ` set rs))) (Num 1)\<rparr>"
  by (simp add: computeBounds_def fold_bounds_start [OF assms] jsub_def)

lemma scale_bounds:
  fixes lo hi a :: real
  assumes "lo \<le> a" "a \<le> hi" "lo < hi"
  shows "- 1 \<le> (a - lo) / (hi - lo) * 2 - 1" and "(a - lo) / (hi - lo) * 2 - 1 \<le> 1"
proof -
  define t where "t = (a - lo) / (hi - lo)"
  have "0 \<le> t" using assms by (simp add: t_def)
  then show "- 1 \<le> (a - lo) / (hi - lo) * 2 - 1" unfolding t_def [symmetric] by linarith
  have "t \<le> 1" using assms by (simp add: t_def divide_le_eq)
  then show "(a - lo) / (hi - lo) * 2 - 1 \<le> 1" unfolding t_def [symmetric] by linarith
qed

lemma widen_bounds:
  fixes s w :: real
  assumes "- 1 \<le> s" "s \<le> 1" "0 \<le> w"
  shows "- w \<le> s * w" and "s * w \<le> w"
proof -
  have "(- 1) * w \<le> s * w" using assms by (intro mult_right_mono) simp_all
  then show "- w \<le> s * w" by simp
  have "s * w \<le> 1 * w" using assms by (intro mult_right_mono) simp_all
  then show "s * w \<le> w" by simp
qed

text \<open>
  For finitely placed points with two different first (second) coordinates, the
  normalised first (second) coordinates attain both ends of their interval.
\<close>

lemma normalized_x_extremes:
  assumes p: "p \<in> set rs" and q: "q \<in> set rs" and ne: "fst p \<noteq> fst q" and w: "0 \<le> w"
  defines "b \<equiv> computeBounds (map fin_point rs)"
  shows "is_min (Num (- w)) (map (norm_x b (Num w)) (map fin_point rs))"
    and "is_max (Num w) (map (norm_x b (Num w)) (map fin_point rs))"
proof -
  let ?A = "fst ` set rs"
  let ?lo = "Min ?A" and ?hi = "Max ?A"
  have fin: "finite ?A" and nonempty: "?A \<noteq> {}" using p by auto
  have rs: "rs \<noteq> []" using p by auto
  have lo_le: "?lo \<le> fst r" and le_hi: "fst r \<le> ?hi" if "r \<in> set rs" for r
    using that fin by simp_all
  have "?lo < ?hi"
  proof (rule ccontr)
    assume "\<not> ?lo < ?hi"
    then have "fst p = fst q"
      using lo_le [OF p] le_hi [OF p] lo_le [OF q] le_hi [OF q] by linarith
    with ne show False by simp
  qed
  then have span: "spanX b = Num (?hi - ?lo)" and mn: "minX b = Num ?lo"
    by (simp_all add: b_def computeBounds_fin [OF rs] jor_def)
  have val: "norm_x b (Num w) (fin_point r) = Num (((fst r - ?lo) / (?hi - ?lo) * 2 - 1) * w)" for r
    using \<open>?lo < ?hi\<close> by (simp add: norm_x_def span mn fin_point_def jsub_def)
  obtain rl where rl: "rl \<in> set rs" "fst rl = ?lo"
    using Min_in [OF fin nonempty] by auto
  obtain rh where rh: "rh \<in> set rs" "fst rh = ?hi"
    using Max_in [OF fin nonempty] by auto
  have at_lo: "norm_x b (Num w) (fin_point rl) = Num (- w)"
    by (simp add: val rl)
  have at_hi: "norm_x b (Num w) (fin_point rh) = Num w"
    using \<open>?lo < ?hi\<close> by (simp add: val rh)
  have range: "- w \<le> ((fst r - ?lo) / (?hi - ?lo) * 2 - 1) * w
             \<and> ((fst r - ?lo) / (?hi - ?lo) * 2 - 1) * w \<le> w" if "r \<in> set rs" for r
    using widen_bounds [OF scale_bounds [OF lo_le [OF that] le_hi [OF that] \<open>?lo < ?hi\<close>] w]
    by simp
  show "is_min (Num (- w)) (map (norm_x b (Num w)) (map fin_point rs))"
    unfolding is_min_def
  proof
    show "Num (- w) \<in> set (map (norm_x b (Num w)) (map fin_point rs))"
      using rl(1) at_lo by (force simp: image_iff)
    show "\<forall>v\<in>set (map (norm_x b (Num w)) (map fin_point rs)). jle (Num (- w)) v"
      using range by (auto simp: val)
  qed
  show "is_max (Num w) (map (norm_x b (Num w)) (map fin_point rs))"
    unfolding is_max_def
  proof
    show "Num w \<in> set (map (norm_x b (Num w)) (map fin_point rs))"
      using rh(1) at_hi by (force simp: image_iff)
    show "\<forall>v\<in>set (map (norm_x b (Num w)) (map fin_point rs)). jle v (Num w)"
      using range by (auto simp: val)
  qed
qed

lemma normalized_y_extremes:
  assumes p: "p \<in> set rs" and q: "q \<in> set rs" and ne: "snd p \<noteq> snd q"
  defines "b \<equiv> computeBounds (map fin_point rs)"
  shows "is_min (Num (- 1)) (map (norm_y b) (map fin_point rs))"
    and "is_max (Num 1) (map (norm_y b) (map fin_point rs))"
proof -
  let ?A = "snd ` set rs"
  let ?lo = "Min ?A" and ?hi = "Max ?A"
  have fin: "finite ?A" and nonempty: "?A \<noteq> {}" using p by auto
  have rs: "rs \<noteq> []" using p by auto
  have lo_le: "?lo \<le> snd r" and le_hi: "snd r \<le> ?hi" if "r \<in> set rs" for r
    using that fin by simp_all
  have "?lo < ?hi"
  proof (rule ccontr)
    assume "\<not> ?lo < ?hi"
    then have "snd p = snd q"
      using lo_le [OF p] le_hi [OF p] lo_le [OF q] le_hi [OF q] by linarith
    with ne show False by simp
  qed
  then have span: "spanY b = Num (?hi - ?lo)" and mn: "minY b = Num ?lo"
    by (simp_all add: b_def computeBounds_fin [OF rs] jor_def)
  have val: "norm_y b (fin_point r) = Num ((snd r - ?lo) / (?hi - ?lo) * 2 - 1)" for r
    using \<open>?lo < ?hi\<close> by (simp add: norm_y_def span mn fin_point_def jsub_def)
  obtain rl where rl: "rl \<in> set rs" "snd rl = ?lo"
    using Min_in [OF fin nonempty] by auto
  obtain rh where rh: "rh \<in> set rs" "snd rh = ?hi"
    using Max_in [OF fin nonempty] by auto
  have at_lo: "norm_y b (fin_point rl) = Num (- 1)"
    by (simp add: val rl)
  have at_hi: "norm_y b (fin_point rh) = Num 1"
    using \<open>?lo < ?hi\<close> by (simp add: val rh)
  have range: "- 1 \<le> (snd r - ?lo) / (?hi - ?lo) * 2 - 1
             \<and> (snd r - ?lo) / (?hi - ?lo) * 2 - 1 \<le> 1" if "r \<in> set rs" for r
    using scale_bounds [OF lo_le [OF that] le_hi [OF that] \<open>?lo < ?hi\<close>] by simp
  show "is_min (Num (- 1)) (map (norm_y b) (map fin_point rs))"
    unfolding is_min_def
  proof
    show "Num (- 1) \<in> set (map (norm_y b) (map fin_point rs))"
      using rl(1) at_lo by (force simp: image_iff)
    show "\<forall>v\<in>set (map (norm_y b) (map fin_point rs)). jle (Num (- 1)) v"
      using range by (auto simp: val)
  qed
  show "is_max (Num 1) (map (norm_y b) (map fin_point rs))"
    unfolding is_max_def
  proof
    show "Num 1 \<in> set (map (norm_y b) (map fin_point rs))"
      using rh(1) at_hi by (force simp: image_iff)
    show "\<forall>v\<in>set (map (norm_y b) (map fin_point rs)). jle v (Num 1)"
      using range by (auto simp: val)
  qed
qed

text \<open>The lattice of the builder is finite, and its positions are the normalised lattice.\<close>

lemma buildHexPoints_fin:
  "buildHexPoints cols rows (Num h) = map fin_point (lattice cols rows h)"
  by (simp add: buildHexPoints_rows lattice_def map_concat comp_def raw_point_def fin_point_def)

lemma lattice_mem:
  assumes "i < cols" "j < rows"
  shows "(real i + real (j mod 2) * 0.5, real j * h) \<in> set (lattice cols rows h)"
proof -
  have i: "i \<in> set [0..<cols]" and j: "j \<in> set [0..<rows]" using assms by simp_all
  have "(real i + real (j mod 2) * 0.5, real j * h)
          \<in> set (map (\<lambda>i. (real i + real (j mod 2) * 0.5, real j * h)) [0..<cols])"
    unfolding set_map using i by (rule imageI)
  moreover have "set (map (\<lambda>i. (real i + real (j mod 2) * 0.5, real j * h)) [0..<cols])
     \<in> set (map set (map (\<lambda>j. map (\<lambda>i. (real i + real (j mod 2) * 0.5, real j * h)) [0..<cols]) [0..<rows]))"
    using j by (simp only: set_map image_image) (rule imageI)
  ultimately show ?thesis unfolding lattice_def set_concat by (simp only: set_map image_image) blast
qed

lemma cellHeight_Num: "cellHeight = Num (sqrt 3 * 0.5)"
  by (simp add: cellHeight_def)

lemma createHexGrid_positions:
  "positions (createHexGrid cols rows) =
     (let pts = map fin_point (lattice cols rows (sqrt 3 * 0.5)); b = computeBounds pts
      in concat (map (\<lambda>p. [norm_x b (Num 1.25) p, norm_y b p]) pts))"
  by (simp add: createHexGrid_def Let_def normalizePositions_pairs cellHeight_Num buildHexPoints_fin)

lemma grid_extremes:
  assumes "2 \<le> cols" "2 \<le> rows"
  shows "is_min (Num (- 1)) (ycoords (positions (createHexGrid cols rows)))
       \<and> is_max (Num 1) (ycoords (positions (createHexGrid cols rows)))
       \<and> is_min (Num (- 1.25)) (xcoords (positions (createHexGrid cols rows)))
       \<and> is_max (Num 1.25) (xcoords (positions (createHexGrid cols rows)))"
proof -
  let ?h = "sqrt 3 * 0.5 :: real"
  let ?rs = "lattice cols rows ?h"
  have c0: "0 < cols" and c1: "1 < cols" and r0: "0 < rows" and r1: "1 < rows"
    using assms by linarith+
  have p00: "(0, 0) \<in> set ?rs"
    using lattice_mem [OF c0 r0, of ?h] by simp
  have p10: "(1, 0) \<in> set ?rs"
    using lattice_mem [OF c1 r0, of ?h] by simp
  have p01: "(0.5, ?h) \<in> set ?rs"
    using lattice_mem [OF c0 r1, of ?h] by simp
  have x: "fst (0::real, 0::real) \<noteq> fst (1::real, 0::real)" by simp
  have y: "snd (0::real, 0::real) \<noteq> snd (0.5::real, ?h)" by simp
  have w: "(0::real) \<le> 1.25" by simp
  show ?thesis
    unfolding createHexGrid_positions Let_def xcoords_pairs ycoords_pairs
    by (intro conjI normalized_x_extremes [OF p00 p10 x w] normalized_y_extremes [OF p00 p01 y])
qed

section \<open>The grids of 4 by 3 and of 1 by 1 cells\<close>

lemma grid_edges_4_3:
  "grid_edges 4 3 =
    [0, 1, 0, 4, 1, 2, 1, 5, 1, 4, 2, 3, 2, 6, 2, 5, 3, 7, 3, 6,
     4, 5, 4, 8, 4, 9, 5, 6, 5, 9, 5, 10, 6, 7, 6, 10, 6, 11, 7, 11,
     8, 9, 9, 10, 10, 11]"
  by code_simp

lemma buildHexEdges_4_3:
  "buildHexEdges 4 3 =
    [0, 1, 0, 4, 1, 2, 1, 5, 1, 4, 2, 3, 2, 6, 2, 5, 3, 7, 3, 6,
     4, 5, 4, 8, 4, 9, 5, 6, 5, 9, 5, 10, 6, 7, 6, 10, 6, 11, 7, 11,
     8, 9, 9, 10, 10, 11]"
  unfolding buildHexEdges_cells grid_edges_4_3 uint16Array_def by simp

lemma parity_diagonals_4_3:
  "parity_diagonals 4 3 = [(1, 4), (2, 5), (3, 6), (4, 9), (5, 10), (6, 11)]"
  by code_simp

lemma edges_4_3_distinct: "distinct (map undirected (pairs (buildHexEdges 4 3)))"
  unfolding buildHexEdges_4_3 by (simp add: undirected_def)

lemma edges_4_3_diagonals: "filter (is_diagonal 4) (pairs (map uint (buildHexEdges 4 3))) = parity_diagonals 4 3"
  unfolding buildHexEdges_4_3 parity_diagonals_4_3 by (simp add: is_diagonal_def)

lemma points_1_1: "buildHexPoints 1 1 cellHeight = [\<lparr>p_x = Num 0, p_y = Num 0\<rparr>]"
  by (simp add: buildHexPoints_def cellHeight_def)

lemma bounds_1_1: "computeBounds [\<lparr>p_x = Num 0, p_y = Num 0\<rparr>]
   = \<lparr>minX = Num 0, minY = Num 0, spanX = Num 1, spanY = Num 1\<rparr>"
  by (simp add: computeBounds_def bounds_step_def jgt_def jsub_def jor_def)

lemma positions_1_1: "positions (createHexGrid 1 1) = [Num (- 1.25), Num (- 1)]"
  unfolding createHexGrid_def Let_def grid.simps normalizePositions_def points_1_1 bounds_1_1
  by (simp add: jsub_def numeral_2_eq_2)

lemma createHexGrid_indices: "indices (createHexGrid cols rows) = buildHexEdges cols rows"
  by (simp add: createHexGrid_def Let_def)

lemma createHexGrid_length:
  "length (positions (createHexGrid cols rows)) = 2 * (cols * rows)"
  by (simp add: createHexGrid_def Let_def length_normalizePositions length_buildHexPoints)

section \<open>Properties of the Mesh Builder\<close>

text \<open>
  C1.  For every \<open>cols \<ge> 1\<close> and \<open>rows \<ge> 1\<close> the position buffer holds two floats for
  each of \<open>cols * rows\<close> points, and every index stored in the index buffer is below
  \<open>cols * rows\<close>.  This holds for the pipeline and for the monolithic builder, and also
  where \<open>cols * rows\<close> exceeds the 16 bits of an index: a stored index is the pushed one
  modulo \<open>2^16\<close>, hence not larger.
\<close>

theorem mesh_counts:
  assumes "1 \<le> cols" "1 \<le> rows"
  shows "length (positions (createHexGrid cols rows)) = 2 * (cols * rows)
       \<and> (\<forall>w \<in> set (indices (createHexGrid cols rows)). unat w < cols * rows)
       \<and> length (positions (createHexGrid_simple cols rows)) = 2 * (cols * rows)
       \<and> (\<forall>w \<in> set (indices (createHexGrid_simple cols rows)). unat w < cols * rows)"
  unfolding simple_eq_pipeline createHexGrid_indices createHexGrid_length
  using indices_range by blast

theorem mesh_counts_witness:
  "(1::nat) \<le> 4 \<and> (1::nat) \<le> 3
   \<and> length (positions (createHexGrid 4 3)) = 24
   \<and> (11 :: 16 word) \<in> set (indices (createHexGrid 4 3))
   \<and> unat (11 :: 16 word) < 4 * 3"
proof -
  have "(11 :: 16 word) \<in> set (indices (createHexGrid 4 3))"
    unfolding createHexGrid_indices buildHexEdges_4_3 by simp
  then show ?thesis using mesh_counts [of 4 3] by simp
qed

text \<open>
  C2.  For every \<open>cols \<ge> 2\<close> and \<open>rows \<ge> 2\<close> the normalised second coordinates have
  minimum \<open>-1\<close> and maximum \<open>1\<close>, and the first coordinates have minimum \<open>-1.25\<close> and
  maximum \<open>1.25\<close>: both horizontal bounds are attained, not only one of them.  In the
  exact arithmetic of the model the four values are met exactly.
\<close>

theorem normalized_extremes:
  assumes "2 \<le> cols" "2 \<le> rows"
  shows "normalized_box (createHexGrid cols rows) \<and> normalized_box (createHexGrid_simple cols rows)"
  unfolding simple_eq_pipeline normalized_box_def
  using grid_extremes [OF assms] by simp

theorem normalized_extremes_witness:
  "(2::nat) \<le> 80 \<and> (2::nat) \<le> 28
   \<and> normalized_box (createHexGrid 80 28) \<and> normalized_box (createHexGrid_simple 80 28)"
  using normalized_extremes [of 80 28] by simp

text \<open>
  C6.  The builder called with \<open>cols = 4\<close> and \<open>rows = 3\<close> yields 12 points and a
  non-empty edge list in which no undirected pair of end points occurs twice; its
  diagonal edges are exactly those of the parity rule: from an even row to column
  \<open>i - 1\<close> of the next row, from an odd row to column \<open>i + 1\<close>, neighbours outside the
  lattice skipped.  The pipeline yields the same grid.
\<close>

theorem grid_4_3:
  "length (positions (createHexGrid_simple 4 3)) = 2 * 12
   \<and> indices (createHexGrid_simple 4 3) \<noteq> []
   \<and> distinct (map undirected (pairs (indices (createHexGrid_simple 4 3))))
   \<and> filter (is_diagonal 4) (pairs (map uint (indices (createHexGrid_simple 4 3))))
       = parity_diagonals 4 3
   \<and> parity_diagonals 4 3 = [(1, 4), (2, 5), (3, 6), (4, 9), (5, 10), (6, 11)]
   \<and> createHexGrid 4 3 = createHexGrid_simple 4 3"
proof -
  have "indices (createHexGrid 4 3) \<noteq> []"
    unfolding createHexGrid_indices buildHexEdges_4_3 by simp
  then show ?thesis
    unfolding simple_eq_pipeline
    using edges_4_3_distinct edges_4_3_diagonals parity_diagonals_4_3 createHexGrid_length [of 4 3]
    by (simp add: createHexGrid_indices)
qed

text \<open>
  The divisors of \<open>normalizePositions\<close> are the two spans of \<open>computeBounds\<close>, and
  those are never zero, whatever the points.
\<close>

lemma span_nonzero:
  "spanX (computeBounds points) \<noteq> Num 0 \<and> spanY (computeBounds points) \<noteq> Num 0"
  by (auto simp: computeBounds_def jor_def split: prod.splits)

text \<open>
  C7.  With \<open>cols = 1\<close> and \<open>rows = 1\<close> both spans are zero and are replaced by \<open>1\<close>, so
  that no division has a zero divisor, and the grid is the single point
  \<open>(-1.25, -1)\<close>, with no edge.
\<close>

theorem degenerate_grid:
  "spanX (computeBounds (buildHexPoints 1 1 cellHeight)) = Num 1
   \<and> spanY (computeBounds (buildHexPoints 1 1 cellHeight)) = Num 1
   \<and> positions (createHexGrid 1 1) = [Num (- 1.25), Num (- 1)]
   \<and> positions (createHexGrid_simple 1 1) = [Num (- 1.25), Num (- 1)]
   \<and> indices (createHexGrid 1 1) = []"
proof -
  have "buildHexEdges 1 1 = []"
    unfolding buildHexEdges_cells by (simp add: grid_edges_def cell_edges_def uint16Array_def)
  then show ?thesis
    unfolding simple_eq_pipeline points_1_1 bounds_1_1
    using positions_1_1 by (simp add: createHexGrid_indices)
qed

text \<open>
  C10.  The monolithic builder of the simple variant and the decomposed pipeline of
  the richer variant produce the same position buffer and the same index buffer, value
  by value, for all \<open>cols\<close> and \<open>rows\<close> (so for all \<open>cols \<ge> 1\<close> and \<open>rows \<ge> 1\<close>).  The
  two perform the same operations in the same order, but for the factor
  \<open>cellW = 1.0\<close>.
\<close>

theorem builders_agree:
  "positions (createHexGrid_simple cols rows) = positions (createHexGrid cols rows)
   \<and> indices (createHexGrid_simple cols rows) = indices (createHexGrid cols rows)"
  by (simp add: simple_eq_pipeline)

section \<open>The render loop\<close>

text \<open>The operations on finite Numbers are those of the reals.\<close>

lemma jlt_Num [simp]: "jlt (Num a) (Num b) \<longleftrightarrow> a < b"
  by simp

lemma jge_Num [simp]: "jge (Num a) (Num b) \<longleftrightarrow> b \<le> a"
  by (auto simp: jge_def)

lemma jgt_Num [simp]: "jgt (Num a) (Num b) \<longleftrightarrow> b < a"
  by (simp add: jgt_def)

lemma jsub_Num [simp]: "jsub (Num a) (Num b) = Num (a - b)"
  by (simp add: jsub_def)

lemma jmax_Num [simp]: "jmax (Num a) (Num b) = Num (max a b)"
  by (simp add: jmax_def max_def)

text \<open>What a frame does to the pointer position and to the scale.\<close>

lemma render_uScale: "uScale (snd (render s ms w)) = meshScale w"
  by (simp add: render_def Let_def split: prod.splits)

lemma render_mouse: "mouse (fst (render s ms w)) = smoothMouse (mouse s) (targetMouse s)"
  by (simp add: render_def Let_def split: prod.splits if_splits)

lemma render_targetMouse: "targetMouse (fst (render s ms w)) = targetMouse s"
  by (simp add: render_def Let_def split: prod.splits if_splits)

lemma render_simple_uScale: "uScale_s (snd (render_simple s ms w)) = meshScale w"
  by (simp add: render_simple_def Let_def)

lemma render_simple_mouse: "mouse (fst (render_simple s ms w)) = mouse (fst (render s ms w))"
  by (simp add: render_simple_def render_mouse Let_def)

text \<open>
  The rounding error of binary64: half a spacing, which is at most \<open>2^(-53)\<close> of the
  value, or \<open>2^(-1075)\<close> in the subnormal range.
\<close>

lemma rne_error: "\<bar>of_int (rne y) - y\<bar> \<le> 1 / 2"
proof -
  define f where "f = \<lfloor>y\<rfloor>"
  have lo: "of_int f \<le> y" and hi: "y < of_int f + 1"
    unfolding f_def by linarith+
  consider "y - of_int f < 1 / 2" | "1 / 2 < y - of_int f" | "y - of_int f = 1 / 2"
    by linarith
  then show ?thesis
  proof cases
    case 1
    then have "rne y = f" by (simp add: rne_def f_def)
    then show ?thesis using 1 lo by simp
  next
    case 2
    then have "rne y = f + 1" by (simp add: rne_def f_def)
    then show ?thesis using 2 hi by simp
  next
    case 3
    then have "rne y = f \<or> rne y = f + 1" by (simp add: rne_def f_def Let_def)
    then show ?thesis using 3 by auto
  qed
qed

lemma ulp64_pos: "0 < ulp64 x"
  by (simp add: ulp64_def)

lemma ulp64_le:
  assumes "x \<noteq> 0"
  shows "ulp64 x \<le> \<bar>x\<bar> / 2 ^ 52 + 1 / 2 ^ 1074"
proof (cases "- 1022 \<le> \<lfloor>log 2 \<bar>x\<bar>\<rfloor>")
  case True
  define L where "L = \<lfloor>log 2 \<bar>x\<bar>\<rfloor>"
  have m: "max L (- 1022) = L" using True by (simp add: L_def)
  have "(2::real) powi L = 2 powr (of_int L)"
    by (simp add: powr_real_of_int power_int_def inverse_eq_divide power_one_over)
  also have "\<dots> \<le> 2 powr (log 2 \<bar>x\<bar>)"
    unfolding L_def by (intro powr_mono) simp_all
  also have "\<dots> = \<bar>x\<bar>" using assms by simp
  finally have le: "(2::real) powi L \<le> \<bar>x\<bar>" .
  have "ulp64 x = 2 powi (L - 52)"
    unfolding ulp64_def L_def [symmetric] m ..
  also have "\<dots> = 2 powi L / 2 powi 52"
    by (rule power_int_diff) simp
  also have "\<dots> = 2 powi L / 2 ^ 52"
    by simp
  also have "\<dots> \<le> \<bar>x\<bar> / 2 ^ 52"
    using le by (simp add: divide_right_mono)
  finally have "ulp64 x \<le> \<bar>x\<bar> / 2 ^ 52" .
  moreover have "(0::real) \<le> 1 / 2 ^ 1074" by simp
  ultimately show ?thesis by linarith
next
  case False
  then have m: "max \<lfloor>log 2 \<bar>x\<bar>\<rfloor> (- 1022) - 52 = - 1074" by simp
  have "ulp64 x = 1 / 2 ^ 1074"
    unfolding ulp64_def m by (simp add: power_int_def inverse_eq_divide power_one_over)
  moreover have "0 \<le> \<bar>x\<bar> / 2 ^ 52" by simp
  ultimately show ?thesis by linarith
qed

lemma fl64_ulp: "\<bar>fl64 x - x\<bar> \<le> ulp64 x / 2"
proof (cases "x = 0")
  case True
  then show ?thesis using ulp64_pos [of x] by (simp add: fl64_def less_imp_le)
next
  case False
  have "fl64 x - x = (of_int (rne (x / ulp64 x)) - x / ulp64 x) * ulp64 x"
    using False ulp64_pos [of x] by (simp add: fl64_def algebra_simps)
  then have "\<bar>fl64 x - x\<bar> = \<bar>of_int (rne (x / ulp64 x)) - x / ulp64 x\<bar> * ulp64 x"
    using ulp64_pos [of x] by (simp add: abs_mult)
  also have "\<dots> \<le> (1 / 2) * ulp64 x"
    using rne_error [of "x / ulp64 x"] ulp64_pos [of x] by (intro mult_right_mono) simp_all
  finally show ?thesis by simp
qed

lemma fl64_error: "\<bar>fl64 x - x\<bar> \<le> \<bar>x\<bar> * (2 / 10 ^ 16) + 1 / 10 ^ 300"
proof (cases "x = 0")
  case True
  then show ?thesis by (simp add: fl64_def)
next
  case False
  have "ulp64 x / 2 \<le> (\<bar>x\<bar> / 2 ^ 52 + 1 / 2 ^ 1074) / 2"
    using ulp64_le [OF False] by (intro divide_right_mono) simp_all
  then have "\<bar>fl64 x - x\<bar> \<le> (\<bar>x\<bar> / 2 ^ 52 + 1 / 2 ^ 1074) / 2"
    using fl64_ulp [of x] by (rule order_trans [rotated])
  also have "\<dots> = \<bar>x\<bar> * (1 / 2 ^ 53) + 1 / 2 ^ 1075"
    by (simp add: add_divide_distrib)
  also have "\<dots> \<le> \<bar>x\<bar> * (2 / 10 ^ 16) + 1 / 10 ^ 300"
  proof -
    have "\<bar>x\<bar> * (1 / 2 ^ 53) \<le> \<bar>x\<bar> * (2 / 10 ^ 16)"
      by (intro mult_left_mono) simp_all
    moreover have "(1 / 2 ^ 1075 :: real) \<le> 1 / 10 ^ 300" by simp
    ultimately show ?thesis by linarith
  qed
  finally show ?thesis .
qed

text \<open>For a value of magnitude at most \<open>b\<close>, the error is at most \<open>b\<close> times \<open>2.1e-16\<close>.\<close>

lemma fl64_near:
  assumes "\<bar>x\<bar> \<le> b" "1 / 10 ^ 200 \<le> b"
  shows "\<bar>fl64 x - x\<bar> \<le> b * (21 / 10 ^ 17)"
proof -
  have "\<bar>x\<bar> * (2 / 10 ^ 16) \<le> b * (2 / 10 ^ 16)"
    using assms(1) by (intro mult_right_mono) simp_all
  moreover have "(1 / 10 ^ 300 :: real) \<le> (1 / 10 ^ 200) * (1 / 10 ^ 17)"
    by simp
  moreover have "(1 / 10 ^ 200) * (1 / 10 ^ 17) \<le> b * (1 / 10 ^ 17)"
    using assms(2) by (intro mult_right_mono) simp_all
  ultimately show ?thesis using fl64_error [of x] by (simp add: algebra_simps)
qed

lemma round64_finite:
  assumes "\<bar>x\<bar> \<le> 4"
  shows "round64 x = Num (fl64 x)"
proof -
  have "\<bar>fl64 x - x\<bar> \<le> 4 * (21 / 10 ^ 17)"
    using assms by (intro fl64_near) simp_all
  then have "\<bar>fl64 x\<bar> \<le> 5" using assms by (simp; argo)
  moreover have "(5::real) < 2 ^ 1024" by simp
  ultimately show ?thesis by (simp add: round64_def Let_def)
qed

text \<open>
  One frame of the easing: while the target lies in \<open>[-1, 1]\<close> and the pointer within 2
  of it, the rounded update is that of \<open>ease1\<close>, and it takes the signed distance \<open>t - m\<close>
  to \<open>0.93 * (t - m)\<close> up to \<open>1e-15\<close>.
\<close>

lemma ease1_error:
  assumes t: "\<bar>t\<bar> \<le> 1" and a: "\<bar>t - m\<bar> \<le> 2"
  shows "\<bar>(t - ease1 m t) - 0.93 * (t - m)\<bar> \<le> 1 / 10 ^ 15"
    and "\<bar>fl64 (t - m) * fl64 0.07\<bar> \<le> 1 / 5"
    and "\<bar>m + fl64 (fl64 (t - m) * fl64 0.07)\<bar> \<le> 33 / 10"
proof -
  define d where "d = fl64 (t - m)"
  define c where "c = fl64 0.07"
  define q where "q = d * c"
  define p where "p = fl64 q"
  define z where "z = m + p"
  have d: "\<bar>d - (t - m)\<bar> \<le> 5 / 10 ^ 16"
    using fl64_near [OF a] by (simp add: d_def)
  then have dabs: "\<bar>d\<bar> \<le> 21 / 10" using a by (simp; argo)
  have c: "\<bar>c - 7 / 100\<bar> \<le> 2 / 10 ^ 17"
    using fl64_near [of "7 / 100" "7 / 100"] by (simp add: c_def)
  then have cabs: "\<bar>c\<bar> \<le> 8 / 100" by (simp; argo)
  have "\<bar>d * (c - 7 / 100)\<bar> \<le> (21 / 10) * (2 / 10 ^ 17)"
    unfolding abs_mult using dabs c by (intro mult_mono) simp_all
  moreover have "\<bar>(7 / 100) * (d - (t - m))\<bar> \<le> (7 / 100) * (5 / 10 ^ 16)"
    unfolding abs_mult using d by (intro mult_mono) simp_all
  moreover have "q - (7 / 100) * (t - m) = d * (c - 7 / 100) + (7 / 100) * (d - (t - m))"
    unfolding q_def by (simp only: right_diff_distrib)
  ultimately have q: "\<bar>q - (7 / 100) * (t - m)\<bar> \<le> 1 / 10 ^ 16"
    by (simp; argo)
  have "\<bar>q\<bar> \<le> (21 / 10) * (8 / 100)"
    unfolding q_def abs_mult using dabs cabs by (intro mult_mono) simp_all
  then have qabs: "\<bar>q\<bar> \<le> 1 / 5" by simp
  have p: "\<bar>p - q\<bar> \<le> 1 / 10 ^ 16"
    using fl64_near [OF qabs] by (simp add: p_def)
  then have pabs: "\<bar>p\<bar> \<le> 3 / 10" using qabs by (simp; argo)
  have mabs: "\<bar>m\<bar> \<le> 3" using t a by linarith
  then have zabs: "\<bar>z\<bar> \<le> 33 / 10" using pabs unfolding z_def by (simp; argo)
  have m': "\<bar>fl64 z - z\<bar> \<le> 7 / 10 ^ 16"
    using fl64_near [OF zabs] by simp
  have e1: "ease1 m t = fl64 z"
    by (simp add: ease1_def z_def p_def q_def d_def c_def)
  have "(t - fl64 z) - (93 / 100) * (t - m)
        = - (q - (7 / 100) * (t - m)) - (p - q) - (fl64 z - z)"
    unfolding z_def by argo
  then have "\<bar>(t - fl64 z) - (93 / 100) * (t - m)\<bar> \<le> 1 / 10 ^ 15"
    using q p m' by (simp; argo)
  then show "\<bar>(t - ease1 m t) - 0.93 * (t - m)\<bar> \<le> 1 / 10 ^ 15"
    by (simp add: e1)
  show "\<bar>fl64 (t - m) * fl64 0.07\<bar> \<le> 1 / 5"
    using qabs by (simp add: q_def d_def c_def)
  show "\<bar>m + fl64 (fl64 (t - m) * fl64 0.07)\<bar> \<le> 33 / 10"
    using zabs by (simp add: z_def p_def q_def d_def c_def)
qed

lemma ease1_near:
  assumes "\<bar>t\<bar> \<le> 1" "\<bar>t - m\<bar> \<le> 2"
  shows "\<bar>t - ease1 m t\<bar> \<le> 2"
  using ease1_error(1) [OF assms] assms(2) by (simp; argo)

lemma smooth_coord:
  assumes t: "\<bar>t\<bar> \<le> 1" and a: "\<bar>t - m\<bar> \<le> 2"
  shows "jround (jadd (Num m) (jround (jmul (jround (jsub (Num t) (Num m))) (round64 0.07))))
         = Num (ease1 m t)"
proof -
  have r1: "round64 (t - m) = Num (fl64 (t - m))"
    using a by (intro round64_finite) simp
  have r2: "round64 0.07 = Num (fl64 0.07)"
    by (intro round64_finite) simp
  have r3: "round64 (fl64 (t - m) * fl64 0.07) = Num (fl64 (fl64 (t - m) * fl64 0.07))"
    using ease1_error(2) [OF t a] by (intro round64_finite) simp
  have r4: "round64 (m + fl64 (fl64 (t - m) * fl64 0.07)) = Num (ease1 m t)"
    unfolding ease1_def using ease1_error(3) [OF t a] by (intro round64_finite) simp
  show ?thesis by (simp only: jsub_Num jround.simps jmul.simps jadd.simps r1 r2 r3 r4)
qed

lemma smooth_fin:
  assumes "\<bar>tx\<bar> \<le> 1" "\<bar>tx - mx\<bar> \<le> 2" "\<bar>ty\<bar> \<le> 1" "\<bar>ty - my\<bar> \<le> 2"
  shows "smoothMouse \<lparr>p_x = Num mx, p_y = Num my\<rparr> \<lparr>p_x = Num tx, p_y = Num ty\<rparr>
         = \<lparr>p_x = Num (ease1 mx tx), p_y = Num (ease1 my ty)\<rparr>"
  using smooth_coord [OF assms(1,2)] smooth_coord [OF assms(3,4)]
  by (simp add: smoothMouse_def)

text \<open>
  The same over \<open>n\<close> frames: the errors of the frames add up to less than \<open>1.5e-14\<close>,
  however many frames.
\<close>

lemma ease_n_error:
  assumes "\<bar>t\<bar> \<le> 1" "\<bar>t - m\<bar> \<le> 2"
  shows "\<bar>(t - ease_n n m t) - 0.93 ^ n * (t - m)\<bar> \<le> (1 - 0.93 ^ n) * (15 / 10 ^ 15)"
  using assms
proof (induction n arbitrary: m)
  case 0
  then show ?case by simp
next
  case (Suc n)
  define m1 where "m1 = ease1 m t"
  define r :: real where "r = 0.93 ^ n"
  define A where "A = (t - ease_n n m1 t) - r * (t - m1)"
  define B where "B = (t - m1) - 0.93 * (t - m)"
  have r: "0 \<le> r" "r \<le> 1" by (simp_all add: r_def power_le_one)
  have s1: "\<bar>B\<bar> \<le> 1 / 10 ^ 15"
    unfolding B_def m1_def by (rule ease1_error(1) [OF Suc.prems])
  have n1: "\<bar>t - m1\<bar> \<le> 2"
    unfolding m1_def by (rule ease1_near [OF Suc.prems])
  have ih: "\<bar>A\<bar> \<le> (1 - r) * (15 / 10 ^ 15)"
    unfolding A_def r_def by (rule Suc.IH [OF Suc.prems(1) n1])
  have "\<bar>r * B\<bar> \<le> r * (1 / 10 ^ 15)"
    unfolding abs_mult using r s1 by (intro mult_mono) simp_all
  moreover have "\<bar>A + r * B\<bar> \<le> \<bar>A\<bar> + \<bar>r * B\<bar>"
    by (rule abs_triangle_ineq)
  ultimately have "\<bar>A + r * B\<bar> \<le> (1 - 0.93 * r) * (15 / 10 ^ 15)"
    using ih r by (simp; argo)
  moreover have "(t - ease_n n m1 t) - 0.93 * r * (t - m) = A + r * B"
    unfolding A_def B_def by (simp only: right_diff_distrib) simp
  ultimately show ?case
    by (simp add: m1_def r_def)
qed

lemma ease_n_near:
  assumes "\<bar>t\<bar> \<le> 1" "\<bar>t - m\<bar> \<le> 2"
  shows "\<bar>(t - ease_n n m t) - 0.93 ^ n * (t - m)\<bar> \<le> 15 / 10 ^ 15"
proof -
  have "(0::real) \<le> 0.93 ^ n" by simp
  then have "(1 - 0.93 ^ n) * (15 / 10 ^ 15) \<le> (15 / 10 ^ 15 :: real)"
    by (simp add: mult_left_le_one_le)
  then show ?thesis using ease_n_error [OF assms, of n] by (rule order_trans [rotated])
qed

lemma frames_mouse:
  assumes "mouse s = \<lparr>p_x = Num mx, p_y = Num my\<rparr>"
      and "targetMouse s = \<lparr>p_x = Num tx, p_y = Num ty\<rparr>"
      and "\<bar>tx\<bar> \<le> 1" "\<bar>tx - mx\<bar> \<le> 2" "\<bar>ty\<bar> \<le> 1" "\<bar>ty - my\<bar> \<le> 2"
  shows "mouse (frames s fs) = \<lparr>p_x = Num (ease_n (length fs) mx tx),
                                  p_y = Num (ease_n (length fs) my ty)\<rparr>
       \<and> targetMouse (frames s fs) = targetMouse s"
  using assms
proof (induction fs arbitrary: s mx my)
  case Nil
  then show ?case by (simp add: frames_def run_def)
next
  case (Cons f fs)
  obtain ms w where f: "f = (ms, w)" by (cases f)
  let ?s = "fst (render s ms w)"
  have m: "mouse ?s = \<lparr>p_x = Num (ease1 mx tx), p_y = Num (ease1 my ty)\<rparr>"
    unfolding render_mouse Cons.prems(1,2)
    by (rule smooth_fin [OF Cons.prems(3,4,5,6)])
  have t: "targetMouse ?s = \<lparr>p_x = Num tx, p_y = Num ty\<rparr>"
    by (simp add: render_targetMouse Cons.prems)
  have nx: "\<bar>tx - ease1 mx tx\<bar> \<le> 2" by (rule ease1_near [OF Cons.prems(3,4)])
  have ny: "\<bar>ty - ease1 my ty\<bar> \<le> 2" by (rule ease1_near [OF Cons.prems(5,6)])
  have "frames s (f # fs) = frames ?s fs"
    by (simp add: frames_def run_def f)
  then show ?case
    using Cons.IH [OF m t Cons.prems(3) nx Cons.prems(5) ny] t Cons.prems(2) by simp
qed


lemma distance_fin:
  "distance \<lparr>p_x = Num ax, p_y = Num ay\<rparr> \<lparr>p_x = Num bx, p_y = Num by\<rparr>
   = Num (sqrt ((ax - bx) * (ax - bx) + (ay - by) * (ay - by)))"
  by (simp add: distance_def)

lemma sqrt_scaled:
  fixes a b c :: real
  assumes "0 \<le> c"
  shows "sqrt ((a * c) * (a * c) + (b * c) * (b * c)) = c * sqrt (a * a + b * b)"
proof -
  have "(a * c) * (a * c) + (b * c) * (b * c) = (c * c) * (a * a + b * b)"
    by (simp add: algebra_simps)
  then have "sqrt ((a * c) * (a * c) + (b * c) * (b * c)) = sqrt (c * c) * sqrt (a * a + b * b)"
    by (simp only: real_sqrt_mult)
  also have "sqrt (c * c) = c" using assms by simp
  finally show ?thesis .
qed

text \<open>What a frame and the pointer handlers do to the shock record.\<close>

lemma render_expired:
  assumes "start (shockState s) = Num t0" "0 \<le> t0" "4500 < ms - t0"
  shows "start (shockState (fst (render s ms w))) = Num (- 1)"
    and "uShockPower (snd (render s ms w)) = Num 0"
    and "uShockHeat (snd (render s ms w)) = Num 0"
    and "uShockTime (snd (render s ms w)) = Num (- 1)"
  using assms by (simp_all add: render_def Let_def)

lemma render_active:
  assumes "start (shockState s) = Num t0" "0 \<le> t0" "0 \<le> ms - t0" "ms - t0 \<le> 4500"
  shows "shockState (fst (render s ms w)) = shockState s"
    and "uShockTime (snd (render s ms w)) = Num ((ms - t0) * 0.001)"
    and "uShockPower (snd (render s ms w)) = Num (max 0 (1 - (ms - t0) * 0.001 / 3.2))"
    and "uShockHeat (snd (render s ms w)) = Num (max 0 (1 - (ms - t0) * 0.001 / 2.2))"
  using assms by (simp_all add: render_def Let_def)

lemma render_shock:
  "origin (shockState (fst (render s ms w))) = origin (shockState s)
   \<and> (start (shockState (fst (render s ms w))) = start (shockState s)
      \<or> start (shockState (fst (render s ms w))) = Num (- 1))"
  by (simp add: render_def Let_def)

lemma render_clears:
  assumes "jge (start (shockState s)) (Num 0)"
      and "jgt (jmul (jsub (Num ms) (start (shockState s))) (Num 0.001)) (Num 4.5)"
  shows "start (shockState (fst (render s ms w))) = Num (- 1)"
  using assms by (simp add: render_def Let_def)

lemma run_snoc: "run s (es @ [e]) = step (run s es) e"
  by (simp add: run_def)

lemma pointermove_shock: "shockState (pointermove s e) = shockState s"
  by (simp add: pointermove_def updatePointerTarget_def recordPointerSpeed_def Let_def)

lemma pointerdown_press:
  assumes "primary e" "\<not> inMenu e"
  shows "shockState (pointerdown s e)
         = \<lparr>origin = clipSpaceFromEvent e, start = Num (nowShock e)\<rparr>"
  using assms
  by (auto simp: pointerdown_def primary_def updatePointerTarget_def recordPointerSpeed_def Let_def)

lemma pointerdown_other:
  assumes "\<not> (primary e \<and> \<not> inMenu e)"
  shows "shockState (pointerdown s e) = shockState s"
  using assms
  by (auto simp: pointerdown_def primary_def openContextMenu_def closeContextMenu_def)

lemma last_press_snoc:
  "last_press (es @ [ev]) =
     (case ev of PointerDown e \<Rightarrow> if primary e \<and> \<not> inMenu e then Some e else last_press es
      | _ \<Rightarrow> last_press es)"
proof (induction es)
  case Nil
  then show ?case by (cases ev) simp_all
next
  case (Cons a es)
  then show ?case by (cases a; cases ev) (simp_all split: option.splits)
qed

lemma single_shock:
  "(case last_press es of
      None \<Rightarrow> tracks (shockState (run s es)) (origin (shockState s)) (start (shockState s))
    | Some e \<Rightarrow> tracks (shockState (run s es)) (clipSpaceFromEvent e) (Num (nowShock e)))"
proof (induction es rule: rev_induct)
  case Nil
  then show ?case by (simp add: run_def tracks_def)
next
  case (snoc ev es)
  have keep: ?case
    if lp: "last_press (es @ [ev]) = last_press es"
    and org: "origin (shockState (run s (es @ [ev]))) = origin (shockState (run s es))"
    and st: "start (shockState (run s (es @ [ev]))) = start (shockState (run s es))
           \<or> start (shockState (run s (es @ [ev]))) = Num (- 1)"
    using snoc.IH st unfolding lp tracks_def org by (auto split: option.splits)
  show ?case
  proof (cases ev)
    case (PointerDown e)
    show ?thesis
    proof (cases "primary e \<and> \<not> inMenu e")
      case True
      then show ?thesis
        by (simp add: PointerDown run_snoc last_press_snoc pointerdown_press tracks_def)
    next
      case False
      then have "last_press (es @ [ev]) = last_press es"
        by (auto simp: PointerDown last_press_snoc)
      moreover have "shockState (run s (es @ [ev])) = shockState (run s es)"
        using False by (simp add: PointerDown run_snoc pointerdown_other)
      ultimately show ?thesis
        by (intro keep) simp_all
    qed
  next
    case (PointerMove e)
    then show ?thesis
      by (intro keep) (simp_all add: run_snoc last_press_snoc pointermove_shock)
  next
    case (Frame ms w)
    then show ?thesis
      using render_shock [of "run s es" ms w]
      by (intro keep) (simp_all add: run_snoc last_press_snoc)
  qed
qed

text \<open>
  Two pages used as concrete inputs: one whose pointer target was moved to the right
  edge at mid height, the smoothed position still at the centre, and one where a press
  at time 100 has started a shock.
\<close>

lemma moved_target:
  "mouse (pointermove (initial_state True 0) (press_at 1000 400 0)) = \<lparr>p_x = Num 0, p_y = Num 0\<rparr>
   \<and> targetMouse (pointermove (initial_state True 0) (press_at 1000 400 0)) = \<lparr>p_x = Num 1, p_y = Num 0\<rparr>"
  by (simp add: pointermove_def updatePointerTarget_def recordPointerSpeed_def clipSpaceFromEvent_def
        press_at_def initial_state_def Let_def)

lemma pressed_start:
  "start (shockState (pointerdown (initial_state True 0) (press_at 500 400 100))) = Num 100"
  by (simp add: pointerdown_press primary_def press_at_def)

section \<open>Properties of the render loop\<close>

text \<open>
  C3 as the specification states it puts the breakpoint widths into the lower bucket,
  width 480 at scale 1.8.  The tests of \<open>render\<close> are strict: at width 480 the scale is
  1.4.
\<close>

theorem scale_at_breakpoint_counterexample:
  "uScale (snd (render (initial_state True 0) 0 480)) \<noteq> Num 1.8"
  by (simp add: render_uScale meshScale_def)

text \<open>
  C3, amended.  In both variants the scale of a frame is chosen from the window width
  alone; width 400 gives 1.8, width 600 gives 1.4, width 900 gives 1.2 and width 1920
  gives 1.0, and the breakpoint widths fall into the upper bucket: width 480 gives 1.4,
  width 768 gives 1.2 and width 1024 gives 1.0.
\<close>

theorem scale_mapping:
  "uScale (snd (render s ms w)) = meshScale w
   \<and> uScale_s (snd (render_simple s ms w)) = meshScale w
   \<and> meshScale 400 = Num 1.8 \<and> meshScale 600 = Num 1.4
   \<and> meshScale 900 = Num 1.2 \<and> meshScale 1920 = Num 1
   \<and> meshScale 480 = Num 1.4 \<and> meshScale 768 = Num 1.2 \<and> meshScale 1024 = Num 1"
  by (simp add: render_uScale render_simple_uScale meshScale_def)

text \<open>
  The distance left after \<open>n\<close> frames: at most \<open>0.93^n\<close> of the initial distance plus the
  rounding of both coordinates, and at least what is left in the first coordinate.
\<close>

lemma frames_distance:
  assumes m: "mouse s = \<lparr>p_x = Num mx, p_y = Num my\<rparr>"
      and t: "targetMouse s = \<lparr>p_x = Num tx, p_y = Num ty\<rparr>"
      and box: "\<bar>mx\<bar> \<le> 1" "\<bar>my\<bar> \<le> 1" "\<bar>tx\<bar> \<le> 1" "\<bar>ty\<bar> \<le> 1"
  obtains D where
    "distance (mouse (frames s fs)) (targetMouse (frames s fs)) = Num D"
    "D \<le> 0.93 ^ length fs * sqrt ((mx - tx) * (mx - tx) + (my - ty) * (my - ty)) + 3 / 10 ^ 14"
    "0.93 ^ length fs * \<bar>tx - mx\<bar> - 15 / 10 ^ 15 \<le> D"
proof -
  define n where "n = length fs"
  define r :: real where "r = 0.93 ^ n"
  define ex where "ex = ease_n n mx tx - tx"
  define ey where "ey = ease_n n my ty - ty"
  define dx where "dx = ex - r * (mx - tx)"
  define dy where "dy = ey - r * (my - ty)"
  define D where "D = sqrt (ex\<^sup>2 + ey\<^sup>2)"
  have nx: "\<bar>tx - mx\<bar> \<le> 2" and ny: "\<bar>ty - my\<bar> \<le> 2" using box by linarith+
  have r: "0 \<le> r" by (simp add: r_def)
  have "dx = - ((tx - ease_n n mx tx) - r * (tx - mx))"
    unfolding dx_def ex_def by (simp add: algebra_simps)
  then have "\<bar>dx\<bar> = \<bar>(tx - ease_n n mx tx) - r * (tx - mx)\<bar>"
    by (simp only: abs_minus)
  then have dx: "\<bar>dx\<bar> \<le> 15 / 10 ^ 15"
    unfolding r_def using ease_n_near [OF box(3) nx, of n] by (simp only:)
  have "dy = - ((ty - ease_n n my ty) - r * (ty - my))"
    unfolding dy_def ey_def by (simp add: algebra_simps)
  then have "\<bar>dy\<bar> = \<bar>(ty - ease_n n my ty) - r * (ty - my)\<bar>"
    by (simp only: abs_minus)
  then have dy: "\<bar>dy\<bar> \<le> 15 / 10 ^ 15"
    unfolding r_def using ease_n_near [OF box(4) ny, of n] by (simp only:)
  have dist: "distance (mouse (frames s fs)) (targetMouse (frames s fs)) = Num D"
    using frames_mouse [OF m t box(3) nx box(4) ny, of fs]
    by (simp add: t distance_fin D_def ex_def ey_def n_def power2_eq_square)
  have "D = sqrt ((r * (mx - tx) + dx)\<^sup>2 + (r * (my - ty) + dy)\<^sup>2)"
    by (simp add: D_def dx_def dy_def)
  also have "\<dots> \<le> sqrt ((r * (mx - tx))\<^sup>2 + (r * (my - ty))\<^sup>2) + sqrt (dx\<^sup>2 + dy\<^sup>2)"
    by (rule real_sqrt_sum_squares_triangle_ineq)
  also have "sqrt ((r * (mx - tx))\<^sup>2 + (r * (my - ty))\<^sup>2)
             = r * sqrt ((mx - tx) * (mx - tx) + (my - ty) * (my - ty))"
    using sqrt_scaled [OF r, of "mx - tx" "my - ty"]
    by (simp add: power2_eq_square mult.commute)
  finally have "D \<le> r * sqrt ((mx - tx) * (mx - tx) + (my - ty) * (my - ty)) + sqrt (dx\<^sup>2 + dy\<^sup>2)"
    by simp
  moreover have "sqrt (dx\<^sup>2 + dy\<^sup>2) \<le> \<bar>dx\<bar> + \<bar>dy\<bar>"
    by (rule sqrt_sum_squares_le_sum_abs)
  ultimately have up: "D \<le> r * sqrt ((mx - tx) * (mx - tx) + (my - ty) * (my - ty)) + 3 / 10 ^ 14"
    using dx dy by (simp; argo)
  have "\<bar>ex\<bar> \<le> D" unfolding D_def by (rule real_sqrt_ge_abs1)
  moreover have "\<bar>r * (mx - tx)\<bar> \<le> \<bar>ex\<bar> + \<bar>dx\<bar>"
    unfolding dx_def by argo
  moreover have "\<bar>r * (mx - tx)\<bar> = r * \<bar>tx - mx\<bar>"
    using r by (simp add: abs_mult abs_minus_commute)
  ultimately have lo: "r * \<bar>tx - mx\<bar> - 15 / 10 ^ 15 \<le> D"
    using dx by (simp; argo)
  show ?thesis
    using that [OF dist] up lo unfolding r_def n_def by blast
qed

text \<open>
  C4 as the specification states it asks for less than a thousandth of the initial
  distance after 60 frames.  With the smoothed position at the centre and the target
  held at distance 1, the distance after 60 frames is about \<open>0.93^60\<close>, more than a
  hundredth.
\<close>

theorem easing_60_frames_counterexample:
  "\<not> jlt (distance
            (mouse (frames (pointermove (initial_state True 0) (press_at 1000 400 0))
                      (map (\<lambda>k. (real k * 16, 1000)) [0..<60])))
            (targetMouse (frames (pointermove (initial_state True 0) (press_at 1000 400 0))
                      (map (\<lambda>k. (real k * 16, 1000)) [0..<60]))))
          (jmul (Num 0.001)
            (distance (mouse (pointermove (initial_state True 0) (press_at 1000 400 0)))
                      (targetMouse (pointermove (initial_state True 0) (press_at 1000 400 0)))))"
proof -
  let ?s = "pointermove (initial_state True 0) (press_at 1000 400 0)"
  let ?fs = "map (\<lambda>k. (real k * 16, 1000 :: int)) [0..<60]"
  have m: "mouse ?s = \<lparr>p_x = Num 0, p_y = Num 0\<rparr>"
    and t: "targetMouse ?s = \<lparr>p_x = Num 1, p_y = Num 0\<rparr>"
    using moved_target by simp_all
  have len: "length ?fs = 60" by simp
  have box: "\<bar>0::real\<bar> \<le> 1" "\<bar>1::real\<bar> \<le> 1" by simp_all
  obtain D where D: "distance (mouse (frames ?s ?fs)) (targetMouse (frames ?s ?fs)) = Num D"
    and lo: "0.93 ^ length ?fs * \<bar>1 - 0\<bar> - 15 / 10 ^ 15 \<le> D"
    by (rule frames_distance [OF m t box(1) box(1) box(2) box(1), of ?fs])
  have "(1 / 1000 :: real) \<le> 0.93 ^ 60 - 15 / 10 ^ 15"
    by (simp add: power_divide)
  then have "1 / 1000 \<le> D" using lo unfolding len by simp
  then show ?thesis
    unfolding D by (simp add: m t distance_fin)
qed

text \<open>
  C4, amended.  While the target is held, with the coordinates of both positions
  between \<open>-1\<close> and \<open>1\<close>, and the update is iterated in binary64, the distance between
  the smoothed position and the target after 60 frames is less than 1.3 hundredths of
  the initial distance plus \<open>1e-13\<close>.  The added term is for the rounding: close to the
  target the rounded update no longer moves the position.
\<close>

theorem easing_after_60_frames:
  assumes m: "mouse s = \<lparr>p_x = Num mx, p_y = Num my\<rparr>"
      and t: "targetMouse s = \<lparr>p_x = Num tx, p_y = Num ty\<rparr>"
      and box: "\<bar>mx\<bar> \<le> 1" "\<bar>my\<bar> \<le> 1" "\<bar>tx\<bar> \<le> 1" "\<bar>ty\<bar> \<le> 1"
      and n: "length fs = 60"
  shows "jlt (distance (mouse (frames s fs)) (targetMouse (frames s fs)))
             (jadd (jmul (Num 0.013) (distance (mouse s) (targetMouse s))) (Num (1 / 10 ^ 13)))"
proof -
  define d0 where "d0 = sqrt ((mx - tx) * (mx - tx) + (my - ty) * (my - ty))"
  have d0: "distance (mouse s) (targetMouse s) = Num d0"
    by (simp add: m t distance_fin d0_def)
  have pos: "0 \<le> d0" by (simp add: d0_def)
  obtain D where D: "distance (mouse (frames s fs)) (targetMouse (frames s fs)) = Num D"
    and up: "D \<le> 0.93 ^ length fs * d0 + 3 / 10 ^ 14"
    unfolding d0_def by (rule frames_distance [OF m t box, of fs])
  have "(0.93::real) ^ 60 \<le> 0.013"
    by (simp add: power_divide)
  then have "0.93 ^ 60 * d0 \<le> 0.013 * d0"
    using pos by (rule mult_right_mono)
  then have "D < 0.013 * d0 + 1 / 10 ^ 13"
    using up unfolding n by (simp; argo)
  then show ?thesis by (simp add: D d0)
qed

theorem easing_after_60_frames_witness:
  "mouse (pointermove (initial_state True 0) (press_at 1000 400 0)) = \<lparr>p_x = Num 0, p_y = Num 0\<rparr>
   \<and> targetMouse (pointermove (initial_state True 0) (press_at 1000 400 0)) = \<lparr>p_x = Num 1, p_y = Num 0\<rparr>
   \<and> \<bar>0 :: real\<bar> \<le> 1 \<and> \<bar>1 :: real\<bar> \<le> 1
   \<and> length (map (\<lambda>k. (real k * 16, 1000 :: int)) [0..<60]) = 60
   \<and> jlt (distance
            (mouse (frames (pointermove (initial_state True 0) (press_at 1000 400 0))
                      (map (\<lambda>k. (real k * 16, 1000)) [0..<60])))
            (targetMouse (frames (pointermove (initial_state True 0) (press_at 1000 400 0))
                      (map (\<lambda>k. (real k * 16, 1000)) [0..<60]))))
          (jadd (jmul (Num 0.013)
                  (distance (mouse (pointermove (initial_state True 0) (press_at 1000 400 0)))
                            (targetMouse (pointermove (initial_state True 0) (press_at 1000 400 0)))))
                (Num (1 / 10 ^ 13)))"
proof -
  let ?s = "pointermove (initial_state True 0) (press_at 1000 400 0)"
  have m: "mouse ?s = \<lparr>p_x = Num 0, p_y = Num 0\<rparr>"
    and t: "targetMouse ?s = \<lparr>p_x = Num 1, p_y = Num 0\<rparr>"
    using moved_target by simp_all
  have b0: "\<bar>0 :: real\<bar> \<le> 1" and b1: "\<bar>1 :: real\<bar> \<le> 1" by simp_all
  have len: "length (map (\<lambda>k. (real k * 16, 1000 :: int)) [0..<60]) = 60" by simp
  show ?thesis
    using easing_after_60_frames [OF m t b0 b0 b1 b0 len] m t b0 b1 len
    by blast
qed

text \<open>
  C5.  For a shock started at time \<open>t0\<close>, a frame at \<open>t0\<close> plus five seconds clears it:
  the start is reset to \<open>-1\<close> and strength and heat are 0.  A frame at \<open>t0\<close> plus one
  second gives a strength and a heat that are greater than 0 and at most 1.  A start
  time is a reading of \<open>performance.now()\<close> and as such not negative; a negative start
  is the mark of no shock.
\<close>

theorem shock_aging:
  assumes "start (shockState s) = Num t0" "0 \<le> t0"
  shows "start (shockState (fst (render s (t0 + 5000) w))) = Num (- 1)
       \<and> uShockPower (snd (render s (t0 + 5000) w)) = Num 0
       \<and> uShockHeat (snd (render s (t0 + 5000) w)) = Num 0
       \<and> jlt (Num 0) (uShockPower (snd (render s (t0 + 1000) w)))
       \<and> jle (uShockPower (snd (render s (t0 + 1000) w))) (Num 1)
       \<and> jlt (Num 0) (uShockHeat (snd (render s (t0 + 1000) w)))
       \<and> jle (uShockHeat (snd (render s (t0 + 1000) w))) (Num 1)"
  using render_expired [OF assms, of "t0 + 5000" w] render_active [OF assms, of "t0 + 1000" w]
  by simp

theorem shock_aging_witness:
  "start (shockState (pointerdown (initial_state True 0) (press_at 500 400 100))) = Num 100
   \<and> (0::real) \<le> 100
   \<and> start (shockState (fst (render (pointerdown (initial_state True 0) (press_at 500 400 100))
                                   (100 + 5000) 1000))) = Num (- 1)
   \<and> uShockPower (snd (render (pointerdown (initial_state True 0) (press_at 500 400 100))
                                   (100 + 5000) 1000)) = Num 0
   \<and> jlt (Num 0) (uShockHeat (snd (render (pointerdown (initial_state True 0) (press_at 500 400 100))
                                   (100 + 1000) 1000)))"
proof -
  have z: "(0::real) \<le> 100" by simp
  show ?thesis
    using shock_aging [OF pressed_start z, of 1000] pressed_start z by blast
qed

text \<open>
  C9 as the specification states it lets every primary pointer-down overwrite the
  shock.  A press of the left mouse button whose target lies inside the context menu is
  left to the menu: the handler returns before it touches the shock record.
\<close>

theorem press_inside_menu_counterexample:
  "primary ((press_at 500 400 100)\<lparr>inMenu := True\<rparr>)
   \<and> shockState (pointerdown (initial_state True 0) ((press_at 500 400 100)\<lparr>inMenu := True\<rparr>))
       \<noteq> \<lparr>origin = clipSpaceFromEvent ((press_at 500 400 100)\<lparr>inMenu := True\<rparr>),
          start = Num (nowShock ((press_at 500 400 100)\<lparr>inMenu := True\<rparr>))\<rparr>"
  by (simp add: primary_def press_at_def pointerdown_def initial_state_def)

text \<open>
  C9, amended.  The page tracks one shock record, through every history of pointer
  events and frames.  A primary pointer-down whose target lies outside the context menu
  overwrites its origin and start time, whatever went before; a frame that finds the
  age above 4.5 seconds resets the start to \<open>-1\<close>; and at every moment the record holds
  the origin of the latest such press of the history, with its start time or \<open>-1\<close> (the
  record of the starting state, while there has been no such press).
\<close>

theorem single_shock_invariant:
  "(primary e \<and> \<not> inMenu e \<longrightarrow>
      shockState (run s (es @ [PointerDown e]))
        = \<lparr>origin = clipSpaceFromEvent e, start = Num (nowShock e)\<rparr>)
   \<and> (jge (start (shockState (run s es))) (Num 0)
        \<and> jgt (jmul (jsub (Num ms) (start (shockState (run s es)))) (Num 0.001)) (Num 4.5) \<longrightarrow>
      start (shockState (run s (es @ [Frame ms w]))) = Num (- 1))
   \<and> (case last_press es of
        None \<Rightarrow> tracks (shockState (run s es)) (origin (shockState s)) (start (shockState s))
      | Some e' \<Rightarrow> tracks (shockState (run s es)) (clipSpaceFromEvent e') (Num (nowShock e')))"
  using single_shock [where s = s and es = es]
    pointerdown_press [where e = e and s = "run s es"]
    render_clears [where s = "run s es" and ms = ms and w = w]
  by (simp add: run_snoc)

theorem single_shock_invariant_witness:
  "primary (press_at 200 300 700) \<and> \<not> inMenu (press_at 200 300 700)
   \<and> shockState (run (initial_state True 0)
                    ([PointerDown (press_at 500 400 100)] @ [PointerDown (press_at 200 300 700)]))
       = \<lparr>origin = clipSpaceFromEvent (press_at 200 300 700), start = Num 700\<rparr>
   \<and> jge (start (shockState (run (initial_state True 0) [PointerDown (press_at 500 400 100)]))) (Num 0)
   \<and> start (shockState (run (initial_state True 0)
                    ([PointerDown (press_at 500 400 100)] @ [Frame 5000 1000]))) = Num (- 1)
   \<and> tracks (shockState (run (initial_state True 0) [PointerDown (press_at 500 400 100)]))
        (clipSpaceFromEvent (press_at 500 400 100)) (Num 100)"
proof -
  let ?s = "initial_state True 0"
  let ?es = "[PointerDown (press_at 500 400 100)]"
  have p: "primary (press_at 200 300 700)" "\<not> inMenu (press_at 200 300 700)"
    by (simp_all add: primary_def press_at_def)
  have r: "run ?s ?es = pointerdown ?s (press_at 500 400 100)"
    by (simp add: run_def)
  have st: "start (shockState (run ?s ?es)) = Num 100"
    unfolding r by (rule pressed_start)
  have age: "jge (start (shockState (run ?s ?es))) (Num 0)"
    "jgt (jmul (jsub (Num 5000) (start (shockState (run ?s ?es)))) (Num 0.001)) (Num 4.5)"
    unfolding st by simp_all
  have lp: "last_press ?es = Some (press_at 500 400 100)"
    by (simp add: primary_def press_at_def)
  have now: "nowShock (press_at 200 300 700) = 700" "nowShock (press_at 500 400 100) = 100"
    by (simp_all add: press_at_def)
  show ?thesis
    using single_shock_invariant [where e = "press_at 200 300 700" and s = ?s and es = ?es
        and ms = 5000 and w = 1000] p age
    unfolding lp by (simp add: now)
qed

end
